theory Spec2Isabelle
  imports Main
begin

section \<open>Data model (app/models/models.py, app/schemas/schemas.py)\<close>

text \<open>
  Dates and timestamps are integers (a date such as 2024-06-01 is written 20240601, a
  timestamp is a clock reading); the handlers use only their equality and order. Prices are
  stored and returned, never computed with, and the seed prices are whole numbers, so they
  are integers too. The \<open>status\<close> column holds the value of a \<open>BookingStatus\<close>: the
  column default writes \<open>Booked\<close> and the only other write is the validated status of a
  status update.
\<close>

datatype BookingStatus = BOOKED | DEPOSIT_PAID | DONE | RESCHEDULED | CANCELLED

text \<open>
  The \<open>role\<close> column of a user is a plain string column; the handlers compare it with
  the values of the string enumeration \<open>UserRole\<close>.
\<close>

definition ADMIN :: string where "ADMIN = ''admin''"
definition MANAGER :: string where "MANAGER = ''manager''"
definition OWNER :: string where "OWNER = ''owner''"

record TimeSlotBase =
  shift_name :: string
  start_time :: string
  end_time :: string
  price :: int

record TimeSlot = TimeSlotBase +
  slot_id :: int

record BookingBase =
  customer_name :: string
  email :: string
  phone :: string
  booking_date :: int
  time_slot_id :: int
  booking_notes :: "string option"

record Booking = BookingBase +
  booking_id :: int
  status :: BookingStatus
  created_at :: int
  updated_at :: int

record User =
  user_id :: int
  username :: string
  user_email :: string
  password :: string
  role :: string
  last_login :: "int option"
  last_logout :: "int option"

record InventoryBase =
  balls :: int
  shoes :: int
  jerseys :: int
  gloves :: int
  check_date :: int

record Inventory = InventoryBase +
  inventory_id :: int
  updated_by :: int

text \<open>The four tables, each in storage (insertion) order.\<close>

record Store =
  time_slots :: "TimeSlot list"
  bookings :: "Booking list"
  users :: "User list"
  inventory :: "Inventory list"

definition empty_store :: Store where
  "empty_store = \<lparr>time_slots = [], bookings = [], users = [], inventory = []\<rparr>"

text \<open>
  A handler either raises an \<open>HTTPException\<close> or returns its value; a handler that
  writes also returns the store. \<open>fails_with\<close> reads the status code of a result.
\<close>

datatype HTTPException = HTTPException (status_code: nat) (detail: string)

definition fails_with :: "nat \<Rightarrow> HTTPException + 'a \<Rightarrow> bool" where
  "fails_with code r = (case r of Inl e \<Rightarrow> status_code e = code | Inr v \<Rightarrow> False)"

subsection \<open>The query interface\<close>

text \<open>\<open>Query.first()\<close>: the first row of the result, or nothing.\<close>

fun first :: "'a list \<Rightarrow> 'a option" where
  "first [] = None"
| "first (x # xs) = Some x"

text \<open>
  An integer primary key left out of an insert is assigned by the table: one more than the
  largest key present, 1 in an empty table.
\<close>

definition next_id :: "int list \<Rightarrow> int" where
  "next_id ids = fold max ids 0 + 1"

text \<open>
  The many-to-one relationship \<open>Booking.time_slot\<close>: the time slot whose primary key
  is the booking's \<open>time_slot_id\<close>, if there is one.
\<close>

definition relationship_time_slot :: "Store \<Rightarrow> Booking \<Rightarrow> TimeSlot option" where
  "relationship_time_slot db b =
     first (filter (\<lambda>t. slot_id t = time_slot_id b) (time_slots db))"

text \<open>The response schema \<open>schemas.Booking\<close>: the row with its joined time slot.\<close>

record BookingOut =
  row :: Booking
  time_slot :: "TimeSlot option"

section \<open>Handlers (main.py)\<close>

subsection \<open>create_booking\<close>

text \<open>
  \<open>models.Booking(**booking.dict())\<close> followed by add, commit and refresh: the request's
  six fields, a fresh key, the column defaults \<open>Booked\<close> for the status and the clock
  for the two timestamps (one clock reading each).
\<close>

definition new_Booking :: "'a BookingBase_scheme \<Rightarrow> int \<Rightarrow> int \<Rightarrow> int \<Rightarrow> Booking" where
  "new_Booking booking new_id t_created t_updated =
     \<lparr>customer_name = customer_name booking, email = email booking, phone = phone booking,
      booking_date = booking_date booking, time_slot_id = time_slot_id booking,
      booking_notes = booking_notes booking,
      booking_id = new_id, status = BOOKED, created_at = t_created, updated_at = t_updated\<rparr>"

definition active_status :: "BookingStatus \<Rightarrow> bool" where
  "active_status st = List.member [BOOKED, DEPOSIT_PAID] st"

definition create_booking ::
  "int \<Rightarrow> int \<Rightarrow> BookingBase \<Rightarrow> Store \<Rightarrow> (HTTPException + BookingOut) \<times> Store" where
  "create_booking t_created t_updated booking db =
     (case first (filter (\<lambda>t. slot_id t = time_slot_id booking) (time_slots db)) of
        None \<Rightarrow> (Inl (HTTPException 404 ''Time slot not found''), db)
      | Some found_slot \<Rightarrow>
          (case first (filter (\<lambda>b. booking_date b = booking_date booking
                                    \<and> time_slot_id b = time_slot_id booking
                                    \<and> active_status (status b)) (bookings db)) of
             Some existing_booking \<Rightarrow>
               (Inl (HTTPException 400
                  ''This time slot is already booked for the selected date''), db)
           | None \<Rightarrow>
               (let db_booking = new_Booking booking (next_id (map booking_id (bookings db)))
                                   t_created t_updated;
                    db' = db\<lparr>bookings := bookings db @ [db_booking]\<rparr>
                in (Inr \<lparr>row = db_booking, time_slot = relationship_time_slot db' db_booking\<rparr>,
                    db'))))"

subsection \<open>init_time_slots\<close>

definition slots :: "TimeSlotBase list" where
  "slots =
    [\<lparr>shift_name = ''Shift 1'', start_time = ''06:00'', end_time = ''07:30'', price = 500000\<rparr>,
     \<lparr>shift_name = ''Shift 2'', start_time = ''07:30'', end_time = ''09:00'', price = 500000\<rparr>,
     \<lparr>shift_name = ''Shift 3'', start_time = ''09:00'', end_time = ''10:30'', price = 400000\<rparr>,
     \<lparr>shift_name = ''Shift 4'', start_time = ''10:30'', end_time = ''12:00'', price = 400000\<rparr>,
     \<lparr>shift_name = ''Shift 5'', start_time = ''13:00'', end_time = ''14:30'', price = 400000\<rparr>,
     \<lparr>shift_name = ''Shift 6'', start_time = ''14:30'', end_time = ''16:00'', price = 400000\<rparr>,
     \<lparr>shift_name = ''Shift 7'', start_time = ''16:00'', end_time = ''17:30'', price = 600000\<rparr>,
     \<lparr>shift_name = ''Shift 8'', start_time = ''18:30'', end_time = ''20:00'', price = 800000\<rparr>,
     \<lparr>shift_name = ''Shift 9'', start_time = ''20:00'', end_time = ''21:30'', price = 800000\<rparr>,
     \<lparr>shift_name = ''Shift 10'', start_time = ''21:30'', end_time = ''23:00'', price = 800000\<rparr>]"

definition new_TimeSlot :: "TimeSlotBase \<Rightarrow> int \<Rightarrow> TimeSlot" where
  "new_TimeSlot slot new_id =
     \<lparr>shift_name = shift_name slot, start_time = start_time slot, end_time = end_time slot,
      price = price slot, slot_id = new_id\<rparr>"

text \<open>
  \<open>db.add\<close> puts an object into the session; the session writes its pending objects to
  the table, in the order they were added, when it is flushed: at \<open>db.commit()\<close>, and
  before each query when the session was made with autoflush on. How \<open>SessionLocal\<close> is
  made is decided in app/core/database.py, so autoflush is a parameter here.
\<close>

fun flush :: "TimeSlot list \<Rightarrow> TimeSlotBase list \<Rightarrow> TimeSlot list" where
  "flush table [] = table"
| "flush table (p # pending) =
     flush (table @ [new_TimeSlot p (next_id (map slot_id table))]) pending"

text \<open>The loop of \<open>init_time_slots\<close>; its state is the table and the pending objects.\<close>

fun init_loop ::
  "bool \<Rightarrow> TimeSlotBase list \<Rightarrow> TimeSlot list \<Rightarrow> TimeSlotBase list
     \<Rightarrow> TimeSlot list \<times> TimeSlotBase list" where
  "init_loop autoflush [] table pending = (table, pending)"
| "init_loop autoflush (slot # rest) table pending =
     (let table' = (if autoflush then flush table pending else table);
          pending' = (if autoflush then [] else pending)
      in case first (filter (\<lambda>t. shift_name t = shift_name slot) table') of
           None \<Rightarrow> init_loop autoflush rest table' (pending' @ [slot])
         | Some db_slot \<Rightarrow> init_loop autoflush rest table' pending')"

definition init_time_slots :: "bool \<Rightarrow> Store \<Rightarrow> Store" where
  "init_time_slots autoflush db =
     (case init_loop autoflush slots (time_slots db) [] of
        (table, pending) \<Rightarrow> db\<lparr>time_slots := flush table pending\<rparr>)"

subsection \<open>login\<close>

text \<open>
  app/core/auth.py supplies the password check, the token constructor and the token
  lifetime; they are parameters of the model.
\<close>

record auth_core =
  verify_password :: "string \<Rightarrow> string \<Rightarrow> bool"
  create_access_token :: "(string \<times> string) list \<Rightarrow> int \<Rightarrow> string"
  ACCESS_TOKEN_EXPIRE_MINUTES :: int

record Token =
  access_token :: string
  token_type :: string

definition login ::
  "auth_core \<Rightarrow> int \<Rightarrow> string \<Rightarrow> string \<Rightarrow> Store \<Rightarrow> (HTTPException + Token) \<times> Store" where
  "login core utcnow form_username form_password db =
     (case first (filter (\<lambda>u. user_email u = form_username) (users db)) of
        None \<Rightarrow> (Inl (HTTPException 401 ''Incorrect email or password''), db)
      | Some user \<Rightarrow>
          if \<not> verify_password core form_password (password user)
          then (Inl (HTTPException 401 ''Incorrect email or password''), db)
          else
            (let db' = db\<lparr>users := map (\<lambda>u. if user_id u = user_id user
                                               then u\<lparr>last_login := Some utcnow\<rparr> else u)
                                         (users db)\<rparr>
             in (Inr \<lparr>access_token = create_access_token core [(''sub'', user_email user)]
                                       (ACCESS_TOKEN_EXPIRE_MINUTES core),
                      token_type = ''bearer''\<rparr>, db')))"

subsection \<open>get_time_slots, get_all_bookings\<close>

definition get_time_slots :: "Store \<Rightarrow> TimeSlot list" where
  "get_time_slots db = time_slots db"

text \<open>\<open>Query.offset\<close> and \<open>Query.limit\<close> with a row count.\<close>

definition offset_rows :: "nat \<Rightarrow> 'a list \<Rightarrow> 'a list" where
  "offset_rows n xs = drop n xs"

definition limit_rows :: "nat \<Rightarrow> 'a list \<Rightarrow> 'a list" where
  "limit_rows n xs = take n xs"

text \<open>
  The handler takes \<open>skip\<close> and \<open>limit\<close> as integers of either sign and hands them to
  the query as they are. An omitted one is \<open>None\<close> and takes the default of the signature.
  When one of them is negative the outcome is the storage engine's, and the engine is
  chosen in app/core/database.py: some engines return rows, some raise. So this is the
  parameter \<open>engine\<close>: from \<open>skip\<close>, \<open>limit\<close> and the stored rows to the rows
  returned, or \<open>None\<close> when the engine raises; the handler does not catch that, and the
  caller gets a server error.
\<close>

type_synonym engine = "int \<Rightarrow> int \<Rightarrow> Booking list \<Rightarrow> Booking list option"

definition get_all_bookings ::
  "engine \<Rightarrow> int option \<Rightarrow> int option \<Rightarrow> User \<Rightarrow> Store
     \<Rightarrow> HTTPException + Booking list" where
  "get_all_bookings engine skip limit current_user db =
     (let skip' = (case skip of None \<Rightarrow> 0 | Some n \<Rightarrow> n);
          limit' = (case limit of None \<Rightarrow> 100 | Some n \<Rightarrow> n)
      in if \<not> List.member [ADMIN, MANAGER, OWNER] (role current_user)
         then Inl (HTTPException 403 ''Not authorized'')
         else if skip' < 0 \<or> limit' < 0
         then (case engine skip' limit' (bookings db) of
                 None \<Rightarrow> Inl (HTTPException 500 ''Internal Server Error'')
               | Some rows \<Rightarrow> Inr rows)
         else Inr (limit_rows (nat limit') (offset_rows (nat skip') (bookings db))))"

subsection \<open>update_booking_status\<close>

text \<open>
  The assignments to \<open>booking.status\<close> and \<open>booking.updated_at\<close> are written at commit as
  an update of the row with the booking's primary key.
\<close>

definition update_booking_status ::
  "int \<Rightarrow> int \<Rightarrow> BookingStatus \<Rightarrow> User \<Rightarrow> Store
     \<Rightarrow> (HTTPException + (string \<times> string) list) \<times> Store" where
  "update_booking_status utcnow bid new_status current_user db =
     (if \<not> List.member [ADMIN, MANAGER, OWNER] (role current_user)
      then (Inl (HTTPException 403 ''Not authorized''), db)
      else
        (case first (filter (\<lambda>b. booking_id b = bid) (bookings db)) of
           None \<Rightarrow> (Inl (HTTPException 404 ''Booking not found''), db)
         | Some booking \<Rightarrow>
             (Inr [(''message'', ''Booking status updated successfully'')],
              db\<lparr>bookings := map (\<lambda>b. if booking_id b = booking_id booking
                                        then b\<lparr>status := new_status, updated_at := utcnow\<rparr>
                                        else b)
                                  (bookings db)\<rparr>)))"

subsection \<open>create_inventory_check, get_latest_inventory\<close>

definition new_Inventory :: "InventoryBase \<Rightarrow> int \<Rightarrow> int \<Rightarrow> Inventory" where
  "new_Inventory req new_id uid =
     \<lparr>balls = balls req, shoes = shoes req, jerseys = jerseys req, gloves = gloves req,
      check_date = check_date req, inventory_id = new_id, updated_by = uid\<rparr>"

definition create_inventory_check ::
  "InventoryBase \<Rightarrow> User \<Rightarrow> Store \<Rightarrow> (HTTPException + Inventory) \<times> Store" where
  "create_inventory_check req current_user db =
     (if \<not> List.member [ADMIN, MANAGER] (role current_user)
      then (Inl (HTTPException 403 ''Not authorized''), db)
      else
        (let db_inventory = new_Inventory req (next_id (map inventory_id (inventory db)))
                              (user_id current_user)
         in (Inr db_inventory, db\<lparr>inventory := inventory db @ [db_inventory]\<rparr>)))"

text \<open>
  \<open>order_by(column.desc())\<close>: the rows sorted by the column, largest first; rows with equal
  values stay in storage order.
\<close>

definition order_by_desc :: "('a \<Rightarrow> int) \<Rightarrow> 'a list \<Rightarrow> 'a list" where
  "order_by_desc column xs = sort_key (\<lambda>x. - column x) xs"

definition get_latest_inventory :: "User \<Rightarrow> Store \<Rightarrow> HTTPException + Inventory" where
  "get_latest_inventory current_user db =
     (if \<not> List.member [ADMIN, MANAGER, OWNER] (role current_user)
      then Inl (HTTPException 403 ''Not authorized'')
      else
        (case first (order_by_desc check_date (inventory db)) of
           None \<Rightarrow> Inl (HTTPException 404 ''No inventory records found'')
         | Some latest_inventory \<Rightarrow> Inr latest_inventory))"

subsection \<open>The double-booking invariant\<close>

definition slot_key :: "Booking \<Rightarrow> int \<times> int" where
  "slot_key b = (booking_date b, time_slot_id b)"

definition no_double_booking :: "Store \<Rightarrow> bool" where
  "no_double_booking db =
     distinct (map slot_key (filter (\<lambda>b. active_status (status b)) (bookings db)))"

section \<open>Sample data\<close>

text \<open>Concrete rows, stores and requests on which the properties below are run.\<close>

definition demo_slot :: TimeSlot where
  "demo_slot = new_TimeSlot (hd slots) 1"

definition demo_req :: BookingBase where
  "demo_req = \<lparr>customer_name = ''An'', email = ''an@example.com'', phone = ''0123'',
     booking_date = 20240601, time_slot_id = 1, booking_notes = None\<rparr>"

definition demo_db :: Store where
  "demo_db = empty_store\<lparr>time_slots := [demo_slot]\<rparr>"

definition demo_booking :: Booking where
  "demo_booking = new_Booking demo_req 1 5 6"

text \<open>A stand-in for app/core/auth.py, and three users: an admin, an owner, and one whose
  role is none of the three.\<close>

definition demo_core :: auth_core where
  "demo_core = \<lparr>verify_password = (\<lambda>plain hashed. hashed = ''hash:'' @ plain),
      create_access_token = (\<lambda>data expires. concat (map snd data)),
      ACCESS_TOKEN_EXPIRE_MINUTES = 30\<rparr>"

definition demo_admin :: User where
  "demo_admin = \<lparr>user_id = 1, username = ''binh'', user_email = ''binh@example.com'',
      password = ''hash:secret'', role = ADMIN, last_login = None, last_logout = None\<rparr>"

definition demo_owner :: User where
  "demo_owner = \<lparr>user_id = 2, username = ''chi'', user_email = ''chi@example.com'',
      password = ''hash:pitch'', role = OWNER, last_login = None, last_logout = None\<rparr>"

definition demo_guest :: User where
  "demo_guest = \<lparr>user_id = 3, username = ''dung'', user_email = ''dung@example.com'',
      password = ''hash:ball'', role = ''guest'', last_login = None, last_logout = None\<rparr>"

definition demo_users :: Store where
  "demo_users = empty_store\<lparr>users := [demo_admin, demo_owner, demo_guest]\<rparr>"

definition demo_cancelled :: Booking where
  "demo_cancelled = demo_booking\<lparr>booking_id := 2, booking_date := 20240602, status := CANCELLED\<rparr>"

definition demo_store :: Store where
  "demo_store = \<lparr>time_slots = [demo_slot], bookings = [demo_booking, demo_cancelled],
      users = [demo_admin, demo_owner, demo_guest], inventory = []\<rparr>"




text \<open>Inventory checks stored out of date order.\<close>

definition demo_check :: "int \<Rightarrow> int \<Rightarrow> Inventory" where
  "demo_check k day = \<lparr>balls = 10, shoes = 8, jerseys = 22, gloves = 4, check_date = day,
      inventory_id = k, updated_by = 1\<rparr>"

definition demo_inventory :: Store where
  "demo_inventory = demo_store\<lparr>inventory :=
      [demo_check 1 20240105, demo_check 2 20240301, demo_check 3 20240210]\<rparr>"

text \<open>A store that already has a row named \<open>Shift 1\<close>, with other times and price.\<close>

definition demo_old :: Store where
  "demo_old = empty_store\<lparr>time_slots :=
     [\<lparr>shift_name = ''Shift 1'', start_time = ''05:00'', end_time = ''06:00'', price = 1,
       slot_id = 7\<rparr>]\<rparr>"

text \<open>
  A run of the program from a store that holds the three users: seeding, a booking, its
  cancellation, a second booking for the same date and slot, and the first booking set
  back to \<open>Booked\<close>.
\<close>

definition step_seed :: Store where
  "step_seed = init_time_slots False demo_users"

definition step_first :: Store where
  "step_first = snd (create_booking 1 1 demo_req step_seed)"

definition step_cancel :: Store where
  "step_cancel = snd (update_booking_status 2 1 CANCELLED demo_admin step_first)"

definition step_second :: Store where
  "step_second = snd (create_booking 3 3 demo_req step_cancel)"

definition step_rebook :: Store where
  "step_rebook = snd (update_booking_status 4 1 BOOKED demo_admin step_second)"

section \<open>Properties\<close>

subsection \<open>Queries\<close>


lemma first_None_iff: "first xs = None \<longleftrightarrow> xs = []"
  by (cases xs) simp_all

lemma first_filter_None: "first (filter P xs) = None \<longleftrightarrow> (\<forall>x\<in>set xs. \<not> P x)"
  by (simp add: first_None_iff filter_empty_conv)

lemma first_filter_Some: "first (filter P xs) = Some x \<Longrightarrow> x \<in> set xs \<and> P x"
proof (induction xs)
  case Nil
  then show ?case by simp
next
  case (Cons y ys)
  then show ?case by (cases "P y") auto
qed

lemma active_status_iff: "active_status st \<longleftrightarrow> st = BOOKED \<or> st = DEPOSIT_PAID"
  by (auto simp: active_status_def)


subsection \<open>create_booking\<close>

lemma create_booking_not_found:
  assumes "\<forall>t\<in>set (time_slots db). slot_id t \<noteq> time_slot_id booking"
  shows "create_booking tc tu booking db = (Inl (HTTPException 404 ''Time slot not found''), db)"
proof -
  have "first (filter (\<lambda>t. slot_id t = time_slot_id booking) (time_slots db)) = None"
    using assms by (simp add: first_filter_None)
  then show ?thesis by (simp add: create_booking_def)
qed

lemma create_booking_conflict:
  assumes slot: "\<exists>t\<in>set (time_slots db). slot_id t = time_slot_id booking"
    and busy: "\<exists>b\<in>set (bookings db). booking_date b = booking_date booking
                 \<and> time_slot_id b = time_slot_id booking \<and> active_status (status b)"
  shows "create_booking tc tu booking db =
    (Inl (HTTPException 400 ''This time slot is already booked for the selected date''), db)"
proof -
  from slot obtain t where
    "first (filter (\<lambda>t. slot_id t = time_slot_id booking) (time_slots db)) = Some t"
    by (cases "first (filter (\<lambda>t. slot_id t = time_slot_id booking) (time_slots db))")
       (auto simp: first_filter_None)
  moreover from busy obtain b where
    "first (filter (\<lambda>b. booking_date b = booking_date booking
        \<and> time_slot_id b = time_slot_id booking \<and> active_status (status b)) (bookings db)) = Some b"
    by (cases "first (filter (\<lambda>b. booking_date b = booking_date booking
        \<and> time_slot_id b = time_slot_id booking \<and> active_status (status b)) (bookings db))")
       (auto simp: first_filter_None)
  ultimately show ?thesis by (simp add: create_booking_def)
qed

lemma create_booking_insert:
  assumes slot: "\<exists>t\<in>set (time_slots db). slot_id t = time_slot_id booking"
    and free: "\<not> (\<exists>b\<in>set (bookings db). booking_date b = booking_date booking
                 \<and> time_slot_id b = time_slot_id booking \<and> active_status (status b))"
  shows "\<exists>t\<in>set (time_slots db). slot_id t = time_slot_id booking \<and>
     create_booking tc tu booking db =
       (Inr \<lparr>row = new_Booking booking (next_id (map booking_id (bookings db))) tc tu,
             time_slot = Some t\<rparr>,
        db\<lparr>bookings := bookings db
               @ [new_Booking booking (next_id (map booking_id (bookings db))) tc tu]\<rparr>)"
proof -
  from slot obtain t where
    t: "first (filter (\<lambda>t. slot_id t = time_slot_id booking) (time_slots db)) = Some t"
    by (cases "first (filter (\<lambda>t. slot_id t = time_slot_id booking) (time_slots db))")
       (auto simp: first_filter_None)
  have none: "first (filter (\<lambda>b. booking_date b = booking_date booking
        \<and> time_slot_id b = time_slot_id booking \<and> active_status (status b)) (bookings db)) = None"
    using free by (simp add: first_filter_None)
  have "t \<in> set (time_slots db) \<and> slot_id t = time_slot_id booking"
    using first_filter_Some [OF t] .
  moreover have "create_booking tc tu booking db =
       (Inr \<lparr>row = new_Booking booking (next_id (map booking_id (bookings db))) tc tu,
             time_slot = Some t\<rparr>,
        db\<lparr>bookings := bookings db
               @ [new_Booking booking (next_id (map booking_id (bookings db))) tc tu]\<rparr>)"
    using t none
    by (simp add: create_booking_def Let_def relationship_time_slot_def new_Booking_def)
  ultimately show ?thesis by blast
qed

lemma create_booking_cases:
  "create_booking tc tu booking db = (Inl (HTTPException 404 ''Time slot not found''), db)
   \<or> create_booking tc tu booking db =
        (Inl (HTTPException 400 ''This time slot is already booked for the selected date''), db)
   \<or> (\<exists>t\<in>set (time_slots db). slot_id t = time_slot_id booking \<and>
       create_booking tc tu booking db =
       (Inr \<lparr>row = new_Booking booking (next_id (map booking_id (bookings db))) tc tu,
             time_slot = Some t\<rparr>,
        db\<lparr>bookings := bookings db
               @ [new_Booking booking (next_id (map booking_id (bookings db))) tc tu]\<rparr>))"
  using create_booking_not_found [of db booking tc tu]
    create_booking_conflict [of db booking tc tu]
    create_booking_insert [of db booking tc tu]
  by blast

text \<open>
  C1. \<open>create_booking\<close>: an unknown \<open>time_slot_id\<close> gives 404 (not found); otherwise a
  stored booking on the same date and slot with status Booked or Deposit Paid gives 400
  (conflict); otherwise a new booking with status Booked is appended and returned with its
  joined time slot. A second request for the date and slot of a request that succeeded
  gives 400. A failed request leaves the store as it was.
\<close>

theorem create_booking_spec:
  "((\<forall>t\<in>set (time_slots db). slot_id t \<noteq> time_slot_id booking) \<longrightarrow>
      create_booking tc tu booking db = (Inl (HTTPException 404 ''Time slot not found''), db))
   \<and> ((\<exists>t\<in>set (time_slots db). slot_id t = time_slot_id booking) \<and>
       (\<exists>b\<in>set (bookings db). booking_date b = booking_date booking
             \<and> time_slot_id b = time_slot_id booking
             \<and> (status b = BOOKED \<or> status b = DEPOSIT_PAID)) \<longrightarrow>
      create_booking tc tu booking db =
        (Inl (HTTPException 400 ''This time slot is already booked for the selected date''), db))
   \<and> ((\<exists>t\<in>set (time_slots db). slot_id t = time_slot_id booking) \<and>
       \<not> (\<exists>b\<in>set (bookings db). booking_date b = booking_date booking
             \<and> time_slot_id b = time_slot_id booking
             \<and> (status b = BOOKED \<or> status b = DEPOSIT_PAID)) \<longrightarrow>
      (\<exists>out db'. create_booking tc tu booking db = (Inr out, db')
         \<and> db' = db\<lparr>bookings := bookings db @ [row out]\<rparr>
         \<and> status (row out) = BOOKED
         \<and> BookingBase.truncate (row out) = booking
         \<and> (\<exists>t\<in>set (time_slots db). slot_id t = time_slot_id booking \<and> time_slot out = Some t)))
   \<and> (create_booking tc tu booking db = (Inr out, db')
        \<and> booking_date booking' = booking_date booking
        \<and> time_slot_id booking' = time_slot_id booking \<longrightarrow>
        create_booking tc' tu' booking' db' =
          (Inl (HTTPException 400 ''This time slot is already booked for the selected date''), db'))"
proof (intro conjI impI)
  assume "\<forall>t\<in>set (time_slots db). slot_id t \<noteq> time_slot_id booking"
  then show "create_booking tc tu booking db = (Inl (HTTPException 404 ''Time slot not found''), db)"
    by (rule create_booking_not_found)
next
  assume "(\<exists>t\<in>set (time_slots db). slot_id t = time_slot_id booking) \<and>
       (\<exists>b\<in>set (bookings db). booking_date b = booking_date booking
             \<and> time_slot_id b = time_slot_id booking
             \<and> (status b = BOOKED \<or> status b = DEPOSIT_PAID))"
  then show "create_booking tc tu booking db =
        (Inl (HTTPException 400 ''This time slot is already booked for the selected date''), db)"
    by (intro create_booking_conflict) (simp_all add: active_status_iff)
next
  assume a: "(\<exists>t\<in>set (time_slots db). slot_id t = time_slot_id booking) \<and>
       \<not> (\<exists>b\<in>set (bookings db). booking_date b = booking_date booking
             \<and> time_slot_id b = time_slot_id booking
             \<and> (status b = BOOKED \<or> status b = DEPOSIT_PAID))"
  then have "\<exists>t\<in>set (time_slots db). slot_id t = time_slot_id booking \<and>
     create_booking tc tu booking db =
       (Inr \<lparr>row = new_Booking booking (next_id (map booking_id (bookings db))) tc tu,
             time_slot = Some t\<rparr>,
        db\<lparr>bookings := bookings db
               @ [new_Booking booking (next_id (map booking_id (bookings db))) tc tu]\<rparr>)"
    by (intro create_booking_insert) (simp_all add: active_status_iff)
  then show "\<exists>out db'. create_booking tc tu booking db = (Inr out, db')
         \<and> db' = db\<lparr>bookings := bookings db @ [row out]\<rparr>
         \<and> status (row out) = BOOKED
         \<and> BookingBase.truncate (row out) = booking
         \<and> (\<exists>t\<in>set (time_slots db). slot_id t = time_slot_id booking \<and> time_slot out = Some t)"
    by (auto simp: new_Booking_def BookingBase.truncate_def)
next
  assume a: "create_booking tc tu booking db = (Inr out, db')
        \<and> booking_date booking' = booking_date booking
        \<and> time_slot_id booking' = time_slot_id booking"
  with create_booking_cases [of tc tu booking db]
  obtain t where t: "t \<in> set (time_slots db)" "slot_id t = time_slot_id booking"
    and db': "db' = db\<lparr>bookings := bookings db
               @ [new_Booking booking (next_id (map booking_id (bookings db))) tc tu]\<rparr>"
    by auto
  show "create_booking tc' tu' booking' db' =
          (Inl (HTTPException 400 ''This time slot is already booked for the selected date''), db')"
  proof (rule create_booking_conflict)
    show "\<exists>t\<in>set (time_slots db'). slot_id t = time_slot_id booking'"
      using t a db' by auto
    show "\<exists>b\<in>set (bookings db'). booking_date b = booking_date booking'
                 \<and> time_slot_id b = time_slot_id booking' \<and> active_status (status b)"
      using a db' by (auto simp: new_Booking_def active_status_iff)
  qed
qed




theorem create_booking_spec_witness:
  "create_booking 5 6 demo_req empty_store
     = (Inl (HTTPException 404 ''Time slot not found''), empty_store)
   \<and> create_booking 7 8 demo_req (demo_db\<lparr>bookings := [demo_booking\<lparr>status := DEPOSIT_PAID\<rparr>]\<rparr>)
     = (Inl (HTTPException 400 ''This time slot is already booked for the selected date''),
        demo_db\<lparr>bookings := [demo_booking\<lparr>status := DEPOSIT_PAID\<rparr>]\<rparr>)
   \<and> create_booking 5 6 demo_req demo_db
     = (Inr \<lparr>row = demo_booking, time_slot = Some demo_slot\<rparr>,
        demo_db\<lparr>bookings := [demo_booking]\<rparr>)
   \<and> create_booking 7 8 demo_req (demo_db\<lparr>bookings := [demo_booking]\<rparr>)
     = (Inl (HTTPException 400 ''This time slot is already booked for the selected date''),
        demo_db\<lparr>bookings := [demo_booking]\<rparr>)"
proof -
  have no_slot: "\<forall>t\<in>set (time_slots empty_store). slot_id t \<noteq> time_slot_id demo_req"
    by (simp add: empty_store_def)
  have busy: "(\<exists>t\<in>set (time_slots (demo_db\<lparr>bookings := [demo_booking\<lparr>status := DEPOSIT_PAID\<rparr>]\<rparr>)).
                  slot_id t = time_slot_id demo_req) \<and>
       (\<exists>b\<in>set (bookings (demo_db\<lparr>bookings := [demo_booking\<lparr>status := DEPOSIT_PAID\<rparr>]\<rparr>)).
             booking_date b = booking_date demo_req
             \<and> time_slot_id b = time_slot_id demo_req
             \<and> (status b = BOOKED \<or> status b = DEPOSIT_PAID))"
    by (simp add: demo_db_def demo_booking_def demo_req_def demo_slot_def new_Booking_def
          new_TimeSlot_def)
  have created: "create_booking 5 6 demo_req demo_db
     = (Inr \<lparr>row = demo_booking, time_slot = Some demo_slot\<rparr>,
        demo_db\<lparr>bookings := [demo_booking]\<rparr>)"
    by (simp add: create_booking_def demo_db_def demo_booking_def demo_req_def demo_slot_def
          empty_store_def new_Booking_def new_TimeSlot_def slots_def next_id_def
          relationship_time_slot_def Let_def)
  note first_call = create_booking_spec [where db = empty_store and booking = demo_req
      and tc = 5 and tu = 6]
  note paid_call = create_booking_spec
    [where db = "demo_db\<lparr>bookings := [demo_booking\<lparr>status := DEPOSIT_PAID\<rparr>]\<rparr>"
      and booking = demo_req and tc = 7 and tu = 8]
  note twice = create_booking_spec [where db = demo_db and booking = demo_req
      and tc = 5 and tu = 6 and booking' = demo_req and tc' = 7 and tu' = 8
      and out = "\<lparr>row = demo_booking, time_slot = Some demo_slot\<rparr>"
      and db' = "demo_db\<lparr>bookings := [demo_booking]\<rparr>"]
  have "create_booking 5 6 demo_req empty_store
     = (Inl (HTTPException 404 ''Time slot not found''), empty_store)"
    using first_call [THEN conjunct1] no_slot by (rule mp)
  moreover have "create_booking 7 8 demo_req
        (demo_db\<lparr>bookings := [demo_booking\<lparr>status := DEPOSIT_PAID\<rparr>]\<rparr>)
     = (Inl (HTTPException 400 ''This time slot is already booked for the selected date''),
        demo_db\<lparr>bookings := [demo_booking\<lparr>status := DEPOSIT_PAID\<rparr>]\<rparr>)"
    using paid_call [THEN conjunct2, THEN conjunct1] busy by (rule mp)
  moreover have "create_booking 7 8 demo_req (demo_db\<lparr>bookings := [demo_booking]\<rparr>)
     = (Inl (HTTPException 400 ''This time slot is already booked for the selected date''),
        demo_db\<lparr>bookings := [demo_booking]\<rparr>)"
    using twice [THEN conjunct2, THEN conjunct2, THEN conjunct2] created
    by simp
  ultimately show ?thesis using created by simp
qed

subsection \<open>login\<close>

lemma first_filter_unique:
  assumes "distinct (map f xs)" and "x \<in> set xs" and "f x = k"
  shows "first (filter (\<lambda>y. f y = k) xs) = Some x"
  using assms
proof (induction xs)
  case Nil
  then show ?case by simp
next
  case (Cons y ys)
  then show ?case by (cases "y = x") (auto simp: image_iff)
qed

lemma login_unauthorized:
  assumes "\<forall>u\<in>set (users db). user_email u = un \<longrightarrow> \<not> verify_password core pw (password u)"
  shows "login core now un pw db = (Inl (HTTPException 401 ''Incorrect email or password''), db)"
proof (cases "first (filter (\<lambda>u. user_email u = un) (users db))")
  case None
  then show ?thesis by (simp add: login_def)
next
  case (Some user)
  from first_filter_Some [OF Some] assms
  have "\<not> verify_password core pw (password user)" by blast
  with Some show ?thesis by (simp add: login_def)
qed

lemma login_error_unchanged:
  assumes "fst (login core now un pw db) = Inl e"
  shows "e = HTTPException 401 ''Incorrect email or password'' \<and> snd (login core now un pw db) = db"
  using assms
  by (auto simp: login_def Let_def split: option.splits if_splits)

lemma login_success:
  assumes "distinct (map user_email (users db))" and "user \<in> set (users db)"
    and "user_email user = un" and "verify_password core pw (password user)"
  shows "login core now un pw db =
    (Inr \<lparr>access_token = create_access_token core [(''sub'', un)] (ACCESS_TOKEN_EXPIRE_MINUTES core),
          token_type = ''bearer''\<rparr>,
     db\<lparr>users := map (\<lambda>u. if user_id u = user_id user then u\<lparr>last_login := Some now\<rparr> else u)
                     (users db)\<rparr>)"
proof -
  have "first (filter (\<lambda>u. user_email u = un) (users db)) = Some user"
    using assms(1-3) by (rule first_filter_unique)
  then show ?thesis using assms(3,4) by (simp add: login_def Let_def)
qed

text \<open>
  C3. \<open>login\<close>: when no user with the given email has a stored hash that the password
  verifies against (in particular when no user has that email), the call fails with 401
  and returns the store as it was, so no \<open>last_login\<close> changes; every failure of
  \<open>login\<close> is this one. With emails unique, as the table declares them, a user with
  that email whose hash verifies gets \<open>last_login\<close> set to the clock reading, and the
  token is made from the subject \<open>sub\<close> = the user's email.
\<close>

theorem login_spec:
  "((\<forall>u\<in>set (users db). user_email u = un \<longrightarrow> \<not> verify_password core pw (password u)) \<longrightarrow>
      login core now un pw db = (Inl (HTTPException 401 ''Incorrect email or password''), db))
   \<and> (fst (login core now un pw db) = Inl e \<longrightarrow>
        e = HTTPException 401 ''Incorrect email or password''
        \<and> snd (login core now un pw db) = db)
   \<and> (distinct (map user_email (users db)) \<and> user \<in> set (users db)
        \<and> user_email user = un \<and> verify_password core pw (password user) \<longrightarrow>
        login core now un pw db =
          (Inr \<lparr>access_token = create_access_token core [(''sub'', user_email user)]
                                  (ACCESS_TOKEN_EXPIRE_MINUTES core),
                token_type = ''bearer''\<rparr>,
           db\<lparr>users := map (\<lambda>u. if user_id u = user_id user
                                  then u\<lparr>last_login := Some now\<rparr> else u) (users db)\<rparr>)
        \<and> user\<lparr>last_login := Some now\<rparr> \<in> set (users (snd (login core now un pw db))))"
proof (intro conjI impI)
  assume "\<forall>u\<in>set (users db). user_email u = un \<longrightarrow> \<not> verify_password core pw (password u)"
  then show "login core now un pw db = (Inl (HTTPException 401 ''Incorrect email or password''), db)"
    by (rule login_unauthorized)
next
  assume "fst (login core now un pw db) = Inl e"
  then show "e = HTTPException 401 ''Incorrect email or password''"
    and "snd (login core now un pw db) = db"
    using login_error_unchanged by blast+
next
  assume a: "distinct (map user_email (users db)) \<and> user \<in> set (users db)
        \<and> user_email user = un \<and> verify_password core pw (password user)"
  then have eq: "login core now un pw db =
    (Inr \<lparr>access_token = create_access_token core [(''sub'', un)] (ACCESS_TOKEN_EXPIRE_MINUTES core),
          token_type = ''bearer''\<rparr>,
     db\<lparr>users := map (\<lambda>u. if user_id u = user_id user then u\<lparr>last_login := Some now\<rparr> else u)
                     (users db)\<rparr>)"
    by (intro login_success) simp_all
  with a show "login core now un pw db =
          (Inr \<lparr>access_token = create_access_token core [(''sub'', user_email user)]
                                  (ACCESS_TOKEN_EXPIRE_MINUTES core),
                token_type = ''bearer''\<rparr>,
           db\<lparr>users := map (\<lambda>u. if user_id u = user_id user
                                  then u\<lparr>last_login := Some now\<rparr> else u) (users db)\<rparr>)"
    by simp
  from a have "user \<in> set (users db)" by simp
  then have "user\<lparr>last_login := Some now\<rparr>
      \<in> (\<lambda>u. if user_id u = user_id user then u\<lparr>last_login := Some now\<rparr> else u)
          ` set (users db)"
    by (rule rev_image_eqI) simp
  then show "user\<lparr>last_login := Some now\<rparr> \<in> set (users (snd (login core now un pw db)))"
    by (simp add: eq)
qed


theorem login_spec_witness:
  "login demo_core 9 ''nobody@example.com'' ''secret'' demo_users
     = (Inl (HTTPException 401 ''Incorrect email or password''), demo_users)
   \<and> login demo_core 9 ''binh@example.com'' ''wrong'' demo_users
     = (Inl (HTTPException 401 ''Incorrect email or password''), demo_users)
   \<and> snd (login demo_core 9 ''binh@example.com'' ''wrong'' demo_users) = demo_users
   \<and> login demo_core 9 ''binh@example.com'' ''secret'' demo_users
     = (Inr \<lparr>access_token = ''binh@example.com'', token_type = ''bearer''\<rparr>,
        demo_users\<lparr>users := [demo_admin\<lparr>last_login := Some 9\<rparr>, demo_owner, demo_guest]\<rparr>)"
proof -
  have unknown: "\<forall>u\<in>set (users demo_users). user_email u = ''nobody@example.com'' \<longrightarrow>
      \<not> verify_password demo_core ''secret'' (password u)"
    by (simp add: demo_users_def demo_admin_def demo_owner_def demo_guest_def)
  have wrong: "\<forall>u\<in>set (users demo_users). user_email u = ''binh@example.com'' \<longrightarrow>
      \<not> verify_password demo_core ''wrong'' (password u)"
    by (simp add: demo_users_def demo_admin_def demo_owner_def demo_guest_def demo_core_def)
  have right: "distinct (map user_email (users demo_users)) \<and> demo_admin \<in> set (users demo_users)
        \<and> user_email demo_admin = ''binh@example.com''
        \<and> verify_password demo_core ''secret'' (password demo_admin)"
    by (simp add: demo_users_def demo_admin_def demo_owner_def demo_guest_def demo_core_def)
  have a: "login demo_core 9 ''nobody@example.com'' ''secret'' demo_users
     = (Inl (HTTPException 401 ''Incorrect email or password''), demo_users)"
    using login_spec [where db = demo_users and un = "''nobody@example.com''" and pw = "''secret''"
        and core = demo_core and now = 9, THEN conjunct1] unknown
    by (rule mp)
  have b: "login demo_core 9 ''binh@example.com'' ''wrong'' demo_users
     = (Inl (HTTPException 401 ''Incorrect email or password''), demo_users)"
    using login_spec [where db = demo_users and un = "''binh@example.com''" and pw = "''wrong''"
        and core = demo_core and now = 9, THEN conjunct1] wrong
    by (rule mp)
  have c: "snd (login demo_core 9 ''binh@example.com'' ''wrong'' demo_users) = demo_users"
    using login_spec [where db = demo_users and un = "''binh@example.com''" and pw = "''wrong''"
        and core = demo_core and now = 9
        and e = "HTTPException 401 ''Incorrect email or password''",
        THEN conjunct2, THEN conjunct1] b
    by simp
  have d: "login demo_core 9 ''binh@example.com'' ''secret'' demo_users
     = (Inr \<lparr>access_token = ''binh@example.com'', token_type = ''bearer''\<rparr>,
        demo_users\<lparr>users := [demo_admin\<lparr>last_login := Some 9\<rparr>, demo_owner, demo_guest]\<rparr>)"
    using login_spec [where db = demo_users and un = "''binh@example.com''" and pw = "''secret''"
        and core = demo_core and now = 9 and user = demo_admin,
        THEN conjunct2, THEN conjunct2, THEN mp, OF right, THEN conjunct1]
    by (simp add: demo_users_def demo_admin_def demo_owner_def demo_guest_def demo_core_def)
  from a b c d show ?thesis by blast
qed

subsection \<open>Role checks\<close>

lemma fails_with_Inl: "fails_with code (Inl e) \<longleftrightarrow> status_code e = code"
  by (simp add: fails_with_def)

lemma fails_with_Inr: "\<not> fails_with code (Inr v)"
  by (simp add: fails_with_def)

lemma get_all_bookings_forbidden:
  "fails_with 403 (get_all_bookings engine skip limit u db)
     \<longleftrightarrow> role u \<notin> {ADMIN, MANAGER, OWNER}"
  by (simp add: get_all_bookings_def Let_def fails_with_Inl fails_with_Inr split: option.split)

lemma update_booking_status_forbidden:
  "fails_with 403 (fst (update_booking_status now bid st u db))
     \<longleftrightarrow> role u \<notin> {ADMIN, MANAGER, OWNER}"
  by (simp add: update_booking_status_def fails_with_Inl fails_with_Inr split: option.split)

lemma get_latest_inventory_forbidden:
  "fails_with 403 (get_latest_inventory u db) \<longleftrightarrow> role u \<notin> {ADMIN, MANAGER, OWNER}"
  by (simp add: get_latest_inventory_def fails_with_Inl fails_with_Inr split: option.split)

lemma create_inventory_check_forbidden:
  "fails_with 403 (fst (create_inventory_check req u db)) \<longleftrightarrow> role u \<notin> {ADMIN, MANAGER}"
  by (simp add: create_inventory_check_def Let_def fails_with_Inl fails_with_Inr)

text \<open>
  C6. Listing the bookings, updating a booking's status and reading the latest inventory
  fail with 403 exactly when the user's role is none of admin, manager, owner; creating an
  inventory check fails with 403 exactly when the role is neither admin nor manager. A user
  with role owner is refused by the inventory creation and by none of the other three.
\<close>

theorem role_check_spec:
  "(fails_with 403 (get_all_bookings engine skip limit u db)
      = (role u \<notin> {ADMIN, MANAGER, OWNER}))
   \<and> (fails_with 403 (fst (update_booking_status now bid st u db))
        = (role u \<notin> {ADMIN, MANAGER, OWNER}))
   \<and> (fails_with 403 (get_latest_inventory u db) = (role u \<notin> {ADMIN, MANAGER, OWNER}))
   \<and> (fails_with 403 (fst (create_inventory_check req u db)) = (role u \<notin> {ADMIN, MANAGER}))
   \<and> fails_with 403 (fst (create_inventory_check req (u\<lparr>role := OWNER\<rparr>) db))
   \<and> \<not> fails_with 403 (get_all_bookings engine skip limit (u\<lparr>role := OWNER\<rparr>) db)
   \<and> \<not> fails_with 403 (fst (update_booking_status now bid st (u\<lparr>role := OWNER\<rparr>) db))
   \<and> \<not> fails_with 403 (get_latest_inventory (u\<lparr>role := OWNER\<rparr>) db)
   \<and> {ADMIN, MANAGER, OWNER} = {''admin'', ''manager'', ''owner''}"
  unfolding get_all_bookings_forbidden update_booking_status_forbidden
    get_latest_inventory_forbidden create_inventory_check_forbidden
  by (simp add: ADMIN_def MANAGER_def OWNER_def)

subsection \<open>update_booking_status\<close>

lemma update_booking_status_ok:
  assumes "role u \<in> {ADMIN, MANAGER, OWNER}" and "b \<in> set (bookings db)" and "booking_id b = bid"
  shows "update_booking_status now bid st u db =
     (Inr [(''message'', ''Booking status updated successfully'')],
      db\<lparr>bookings := map (\<lambda>b. if booking_id b = bid
                                then b\<lparr>status := st, updated_at := now\<rparr> else b)
                          (bookings db)\<rparr>)"
proof -
  obtain b' where b': "first (filter (\<lambda>b. booking_id b = bid) (bookings db)) = Some b'"
    using assms(2,3)
    by (cases "first (filter (\<lambda>b. booking_id b = bid) (bookings db))")
       (auto simp: first_filter_None)
  from first_filter_Some [OF b'] have "booking_id b' = bid" by simp
  with b' assms(1) show ?thesis by (simp add: update_booking_status_def)
qed

lemma update_booking_status_missing:
  assumes "role u \<in> {ADMIN, MANAGER, OWNER}" and "\<forall>b\<in>set (bookings db). booking_id b \<noteq> bid"
  shows "update_booking_status now bid st u db = (Inl (HTTPException 404 ''Booking not found''), db)"
proof -
  have "first (filter (\<lambda>b. booking_id b = bid) (bookings db)) = None"
    using assms(2) by (simp add: first_filter_None)
  with assms(1) show ?thesis by (simp add: update_booking_status_def)
qed



lemma update_booking_status_success:
  assumes "fst (update_booking_status now bid st u db) = Inr m"
  shows "role u \<in> {ADMIN, MANAGER, OWNER} \<and> (\<exists>b\<in>set (bookings db). booking_id b = bid)"
proof (rule ccontr)
  assume "\<not> ?thesis"
  then consider "role u \<notin> {ADMIN, MANAGER, OWNER}"
    | "role u \<in> {ADMIN, MANAGER, OWNER}" "\<forall>b\<in>set (bookings db). booking_id b \<noteq> bid"
    by blast
  then show False
  proof cases
    case 1
    then have "fst (update_booking_status now bid st u db) = Inl (HTTPException 403 ''Not authorized'')"
      by (simp add: update_booking_status_def)
    with assms show False by simp
  next
    case 2
    then have "fst (update_booking_status now bid st u db)
        = Inl (HTTPException 404 ''Booking not found'')"
      by (simp add: update_booking_status_missing)
    with assms show False by simp
  qed
qed


lemma update_row_status:
  assumes "b' \<in> (\<lambda>b. if booking_id b = bid then b\<lparr>status := st, updated_at := now\<rparr> else b)
            ` set bs" and "booking_id b' = bid"
  shows "status b' = st \<and> updated_at b' = now"
proof -
  from assms(1) obtain c where
    c: "b' = (if booking_id c = bid then c\<lparr>status := st, updated_at := now\<rparr> else c)"
    by (rule imageE)
  show ?thesis
  proof (cases "booking_id c = bid")
    case True
    with c show ?thesis by simp
  next
    case False
    with c assms(2) show ?thesis by simp
  qed
qed


lemma update_booking_status_found:
  assumes r: "role u \<in> {ADMIN, MANAGER, OWNER}" and b1: "b \<in> set (bookings db)"
    and b2: "booking_id b = bid"
  shows "fst (update_booking_status now bid st u db)
          = Inr [(''message'', ''Booking status updated successfully'')]"
    and "b\<lparr>status := st, updated_at := now\<rparr>
            \<in> set (bookings (snd (update_booking_status now bid st u db)))"
    and "\<forall>b'\<in>set (bookings (snd (update_booking_status now bid st u db))).
              booking_id b' = bid \<longrightarrow> status b' = st \<and> updated_at b' = now"
proof -
  have eq: "update_booking_status now bid st u db =
       (Inr [(''message'', ''Booking status updated successfully'')],
        db\<lparr>bookings := map (\<lambda>b. if booking_id b = bid
                                  then b\<lparr>status := st, updated_at := now\<rparr> else b)
                            (bookings db)\<rparr>)"
    using r b1 b2 by (rule update_booking_status_ok)
  have bs: "set (bookings (snd (update_booking_status now bid st u db)))
      = (\<lambda>b. if booking_id b = bid then b\<lparr>status := st, updated_at := now\<rparr> else b)
            ` set (bookings db)"
    unfolding eq by simp
  show "fst (update_booking_status now bid st u db)
          = Inr [(''message'', ''Booking status updated successfully'')]"
    unfolding eq by simp
  show "b\<lparr>status := st, updated_at := now\<rparr>
            \<in> set (bookings (snd (update_booking_status now bid st u db)))"
    unfolding bs using b1 by (rule rev_image_eqI) (simp add: b2)
  show "\<forall>b'\<in>set (bookings (snd (update_booking_status now bid st u db))).
              booking_id b' = bid \<longrightarrow> status b' = st \<and> updated_at b' = now"
    unfolding bs using update_row_status by blast
qed


text \<open>
  C7. For a user with one of the three staff roles, \<open>update_booking_status\<close> fails with
  404 when no booking has the id and leaves the store as it was; otherwise it succeeds,
  whatever the old and the new status are, and every booking with that id then has the new
  status and the clock reading as \<open>updated_at\<close>.
\<close>

theorem update_booking_status_spec:
  "role u \<in> {ADMIN, MANAGER, OWNER} \<Longrightarrow>
   ((\<forall>b\<in>set (bookings db). booking_id b \<noteq> bid) \<longrightarrow>
      update_booking_status now bid st u db = (Inl (HTTPException 404 ''Booking not found''), db))
   \<and> (b \<in> set (bookings db) \<and> booking_id b = bid \<longrightarrow>
        fst (update_booking_status now bid st u db)
          = Inr [(''message'', ''Booking status updated successfully'')]
        \<and> b\<lparr>status := st, updated_at := now\<rparr>
            \<in> set (bookings (snd (update_booking_status now bid st u db)))
        \<and> (\<forall>b'\<in>set (bookings (snd (update_booking_status now bid st u db))).
              booking_id b' = bid \<longrightarrow> status b' = st \<and> updated_at b' = now))"
proof (rule conjI)
  assume r: "role u \<in> {ADMIN, MANAGER, OWNER}"
  show "(\<forall>b\<in>set (bookings db). booking_id b \<noteq> bid) \<longrightarrow>
      update_booking_status now bid st u db = (Inl (HTTPException 404 ''Booking not found''), db)"
  proof (rule impI)
    assume "\<forall>b\<in>set (bookings db). booking_id b \<noteq> bid"
    with r show "update_booking_status now bid st u db
        = (Inl (HTTPException 404 ''Booking not found''), db)"
      by (rule update_booking_status_missing)
  qed
next
  assume r: "role u \<in> {ADMIN, MANAGER, OWNER}"
  show "b \<in> set (bookings db) \<and> booking_id b = bid \<longrightarrow>
        fst (update_booking_status now bid st u db)
          = Inr [(''message'', ''Booking status updated successfully'')]
        \<and> b\<lparr>status := st, updated_at := now\<rparr>
            \<in> set (bookings (snd (update_booking_status now bid st u db)))
        \<and> (\<forall>b'\<in>set (bookings (snd (update_booking_status now bid st u db))).
              booking_id b' = bid \<longrightarrow> status b' = st \<and> updated_at b' = now)"
  proof (rule impI)
    assume "b \<in> set (bookings db) \<and> booking_id b = bid"
    then have b1: "b \<in> set (bookings db)" and b2: "booking_id b = bid"
      by (rule conjunct1, rule conjunct2)
    from update_booking_status_found [OF r b1 b2, of now st]
    show "fst (update_booking_status now bid st u db)
          = Inr [(''message'', ''Booking status updated successfully'')]
        \<and> b\<lparr>status := st, updated_at := now\<rparr>
            \<in> set (bookings (snd (update_booking_status now bid st u db)))
        \<and> (\<forall>b'\<in>set (bookings (snd (update_booking_status now bid st u db))).
              booking_id b' = bid \<longrightarrow> status b' = st \<and> updated_at b' = now)"
      by (intro conjI)
  qed
qed


theorem update_booking_status_spec_witness:
  "update_booking_status 9 7 DONE demo_admin demo_store
     = (Inl (HTTPException 404 ''Booking not found''), demo_store)
   \<and> fst (update_booking_status 9 2 BOOKED demo_owner demo_store)
     = Inr [(''message'', ''Booking status updated successfully'')]
   \<and> demo_cancelled\<lparr>status := BOOKED, updated_at := 9\<rparr>
       \<in> set (bookings (snd (update_booking_status 9 2 BOOKED demo_owner demo_store)))"
proof -
  have admin: "role demo_admin \<in> {ADMIN, MANAGER, OWNER}"
    by (simp add: demo_admin_def)
  have owner: "role demo_owner \<in> {ADMIN, MANAGER, OWNER}"
    by (simp add: demo_owner_def)
  have missing: "\<forall>b\<in>set (bookings demo_store). booking_id b \<noteq> 7"
    by (simp add: demo_store_def demo_booking_def demo_cancelled_def new_Booking_def)
  have present: "demo_cancelled \<in> set (bookings demo_store) \<and> booking_id demo_cancelled = 2"
    by (simp add: demo_store_def demo_cancelled_def)
  note a = update_booking_status_spec [OF admin, where db = demo_store and bid = 7 and now = 9
      and st = DONE, THEN conjunct1, THEN mp, OF missing]
  note b = update_booking_status_spec [OF owner, where db = demo_store and bid = 2 and now = 9
      and st = BOOKED and b = demo_cancelled, THEN conjunct2, THEN mp, OF present]
  from a b [THEN conjunct1] b [THEN conjunct2, THEN conjunct1] show ?thesis
    by (intro conjI)
qed

lemma update_booking_status_frame_rows:
  "list_all2
       (\<lambda>b b'. (if booking_id b = bid then b' = b\<lparr>status := st, updated_at := now\<rparr> else b' = b)
          \<and> customer_name b' = customer_name b \<and> email b' = email b \<and> phone b' = phone b
          \<and> booking_date b' = booking_date b \<and> time_slot_id b' = time_slot_id b
          \<and> booking_notes b' = booking_notes b \<and> created_at b' = created_at b
          \<and> booking_id b' = booking_id b)
       bs (map (\<lambda>b. if booking_id b = bid
                                then b\<lparr>status := st, updated_at := now\<rparr> else b) bs)"
  by (induction bs) simp_all

text \<open>
  C8. A successful \<open>update_booking_status\<close> leaves the time slots, the users and the
  inventory as they were, keeps the bookings in place, changes no booking with another id,
  and changes no field of a booking other than \<open>status\<close> and \<open>updated_at\<close>.
\<close>

theorem update_booking_status_frame:
  "fst (update_booking_status now bid st u db) = Inr m \<Longrightarrow>
   time_slots (snd (update_booking_status now bid st u db)) = time_slots db
   \<and> users (snd (update_booking_status now bid st u db)) = users db
   \<and> inventory (snd (update_booking_status now bid st u db)) = inventory db
   \<and> list_all2
       (\<lambda>b b'. (if booking_id b = bid then b' = b\<lparr>status := st, updated_at := now\<rparr> else b' = b)
          \<and> customer_name b' = customer_name b \<and> email b' = email b \<and> phone b' = phone b
          \<and> booking_date b' = booking_date b \<and> time_slot_id b' = time_slot_id b
          \<and> booking_notes b' = booking_notes b \<and> created_at b' = created_at b
          \<and> booking_id b' = booking_id b)
       (bookings db) (bookings (snd (update_booking_status now bid st u db)))"
proof -
  assume ok: "fst (update_booking_status now bid st u db) = Inr m"
  from update_booking_status_success [OF ok]
  obtain b where r: "role u \<in> {ADMIN, MANAGER, OWNER}" and b1: "b \<in> set (bookings db)"
    and b2: "booking_id b = bid"
    by blast
  have eq: "update_booking_status now bid st u db =
     (Inr [(''message'', ''Booking status updated successfully'')],
      db\<lparr>bookings := map (\<lambda>b. if booking_id b = bid
                                then b\<lparr>status := st, updated_at := now\<rparr> else b)
                          (bookings db)\<rparr>)"
    using r b1 b2 by (rule update_booking_status_ok)
  have "time_slots (snd (update_booking_status now bid st u db)) = time_slots db"
    unfolding eq by simp
  moreover have "users (snd (update_booking_status now bid st u db)) = users db"
    unfolding eq by simp
  moreover have "inventory (snd (update_booking_status now bid st u db)) = inventory db"
    unfolding eq by simp
  moreover have "bookings (snd (update_booking_status now bid st u db))
      = map (\<lambda>b. if booking_id b = bid then b\<lparr>status := st, updated_at := now\<rparr> else b)
          (bookings db)"
    unfolding eq by simp
  ultimately show ?thesis
    using update_booking_status_frame_rows
      [where bid = bid and st = st and now = now and bs = "bookings db"]
    by (simp only:)
qed

theorem update_booking_status_frame_witness:
  "time_slots (snd (update_booking_status 9 2 BOOKED demo_owner demo_store)) = time_slots demo_store
   \<and> users (snd (update_booking_status 9 2 BOOKED demo_owner demo_store)) = users demo_store
   \<and> inventory (snd (update_booking_status 9 2 BOOKED demo_owner demo_store))
       = inventory demo_store
   \<and> list_all2
       (\<lambda>b b'. (if booking_id b = 2 then b' = b\<lparr>status := BOOKED, updated_at := 9\<rparr> else b' = b)
          \<and> customer_name b' = customer_name b \<and> email b' = email b \<and> phone b' = phone b
          \<and> booking_date b' = booking_date b \<and> time_slot_id b' = time_slot_id b
          \<and> booking_notes b' = booking_notes b \<and> created_at b' = created_at b
          \<and> booking_id b' = booking_id b)
       (bookings demo_store)
       (bookings (snd (update_booking_status 9 2 BOOKED demo_owner demo_store)))"
proof -
  have owner: "role demo_owner \<in> {ADMIN, MANAGER, OWNER}"
    by (simp add: demo_owner_def)
  have present: "demo_cancelled \<in> set (bookings demo_store)"
    by (simp add: demo_store_def)
  have key: "booking_id demo_cancelled = 2"
    by (simp add: demo_cancelled_def)
  have ok: "fst (update_booking_status 9 2 BOOKED demo_owner demo_store)
      = Inr [(''message'', ''Booking status updated successfully'')]"
    using owner present key by (rule update_booking_status_found(1))
  show ?thesis
    using ok by (rule update_booking_status_frame)
qed

text \<open>
  C10. In \<open>update_booking_status\<close> the role check comes first: a user with none of the
  three staff roles gets 403, whether or not a booking with the id exists, and the store is
  returned as it was.
\<close>

theorem update_booking_status_role_first:
  "role u \<notin> {ADMIN, MANAGER, OWNER} \<Longrightarrow>
   update_booking_status now bid st u db = (Inl (HTTPException 403 ''Not authorized''), db)"
  by (simp add: update_booking_status_def)

theorem update_booking_status_role_first_witness:
  "update_booking_status 9 7 DONE demo_guest demo_store
     = (Inl (HTTPException 403 ''Not authorized''), demo_store)
   \<and> update_booking_status 9 1 DONE demo_guest demo_store
     = (Inl (HTTPException 403 ''Not authorized''), demo_store)"
proof -
  have guest: "role demo_guest \<notin> {ADMIN, MANAGER, OWNER}"
    by (simp add: demo_guest_def ADMIN_def MANAGER_def OWNER_def)
  from update_booking_status_role_first [OF guest, of 9 7 DONE demo_store]
    update_booking_status_role_first [OF guest, of 9 1 DONE demo_store]
  show ?thesis by (rule conjI)
qed

subsection \<open>get_all_bookings\<close>



text \<open>Whatever the engine is, rows returned for a negative limit are more than the limit.\<close>

lemma negative_limit_exceeded:
  assumes "get_all_bookings engine skip (Some l) u db = Inr rows" and "l < 0"
  shows "\<not> int (length rows) \<le> l"
  using assms(2) by simp







subsection \<open>get_latest_inventory\<close>

lemma first_order_by_desc:
  assumes "xs \<noteq> []"
  shows "\<exists>r. first (order_by_desc column xs) = Some r \<and> r \<in> set xs
           \<and> (\<forall>r'\<in>set xs. column r' \<le> column r)"
proof -
  let ?ys = "sort_key (\<lambda>x. - column x) xs"
  have "?ys \<noteq> []"
    using assms by (metis length_sort length_0_conv)
  then obtain r rest where ys: "?ys = r # rest" by (cases ?ys) auto
  have "sorted (map (\<lambda>x. - column x) ?ys)" by (rule sorted_sort_key)
  then have le: "\<forall>y\<in>set rest. - column r \<le> - column y"
    unfolding ys by simp
  have mem: "set ?ys = set xs" by (rule set_sort)
  have "r \<in> set xs" using mem unfolding ys by auto
  moreover have "\<forall>r'\<in>set xs. column r' \<le> column r"
  proof
    fix r' assume "r' \<in> set xs"
    then have "r' = r \<or> r' \<in> set rest" using mem unfolding ys by auto
    then show "column r' \<le> column r" using le by auto
  qed
  moreover have "first (order_by_desc column xs) = Some r"
    unfolding order_by_desc_def ys by simp
  ultimately show ?thesis by blast
qed

lemma first_order_by_desc_empty: "first (order_by_desc column []) = None"
  by (simp add: order_by_desc_def)

lemma get_latest_inventory_none:
  assumes "role u \<in> {ADMIN, MANAGER, OWNER}" and "inventory db = []"
  shows "get_latest_inventory u db = Inl (HTTPException 404 ''No inventory records found'')"
  using assms by (simp add: get_latest_inventory_def first_order_by_desc_empty)

lemma get_latest_inventory_some:
  assumes "role u \<in> {ADMIN, MANAGER, OWNER}" and "inventory db \<noteq> []"
  shows "\<exists>r. get_latest_inventory u db = Inr r \<and> r \<in> set (inventory db)
           \<and> (\<forall>r'\<in>set (inventory db). check_date r' \<le> check_date r)"
proof -
  from first_order_by_desc [OF assms(2), of check_date]
  obtain r where r: "first (order_by_desc check_date (inventory db)) = Some r"
    and rest: "r \<in> set (inventory db)" "\<forall>r'\<in>set (inventory db). check_date r' \<le> check_date r"
    by blast
  from assms(1) r have "get_latest_inventory u db = Inr r"
    by (simp add: get_latest_inventory_def)
  with rest show ?thesis by blast
qed

lemma get_latest_inventory_unique:
  assumes staff: "role u \<in> {ADMIN, MANAGER, OWNER}" and mem: "r \<in> set (inventory db)"
    and top: "\<forall>r'\<in>set (inventory db). r' \<noteq> r \<longrightarrow> check_date r' < check_date r"
  shows "get_latest_inventory u db = Inr r"
proof -
  from mem have "inventory db \<noteq> []" by auto
  from get_latest_inventory_some [OF staff this]
  obtain m where m: "get_latest_inventory u db = Inr m" "m \<in> set (inventory db)"
    "\<forall>r'\<in>set (inventory db). check_date r' \<le> check_date m"
    by blast
  have "m = r"
  proof (rule ccontr)
    assume "m \<noteq> r"
    with top m(2) have "check_date m < check_date r" by blast
    moreover from m(3) mem have "check_date r \<le> check_date m" by blast
    ultimately show False by simp
  qed
  with m(1) show ?thesis by simp
qed


lemma get_latest_inventory_order:
  assumes staff: "role u \<in> {ADMIN, MANAGER, OWNER}"
    and same: "set (inventory db') = set (inventory db)"
  shows "map_sum id check_date (get_latest_inventory u db')
    = map_sum id check_date (get_latest_inventory u db)"
proof (cases "inventory db = []")
  case True
  with same have "inventory db' = []" by simp
  with True staff show ?thesis by (simp add: get_latest_inventory_none)
next
  case False
  with same have ne: "inventory db' \<noteq> []" by auto
  from get_latest_inventory_some [OF staff False]
  obtain r where r: "get_latest_inventory u db = Inr r" "r \<in> set (inventory db)"
    "\<forall>x\<in>set (inventory db). check_date x \<le> check_date r"
    by blast
  from get_latest_inventory_some [OF staff ne]
  obtain r' where r': "get_latest_inventory u db' = Inr r'" "r' \<in> set (inventory db')"
    "\<forall>x\<in>set (inventory db'). check_date x \<le> check_date r'"
    by blast
  from r(2,3) r'(2,3) same have "check_date r' = check_date r"
    by (metis order_antisym)
  with r(1) r'(1) show ?thesis by simp
qed

text \<open>
  C5. For a staff user \<open>get_latest_inventory\<close> fails with 404 exactly when the inventory
  table is empty. Otherwise it returns one row of the table, and no row of the table has a
  later \<open>check_date\<close>; when one row is later than all the others, that row is returned.
  The date of the returned row is the same for every order in which the rows were stored.
\<close>

theorem get_latest_inventory_spec:
  "role u \<in> {ADMIN, MANAGER, OWNER} \<Longrightarrow>
   (fails_with 404 (get_latest_inventory u db) = (inventory db = []))
   \<and> (inventory db = [] \<longrightarrow>
        get_latest_inventory u db = Inl (HTTPException 404 ''No inventory records found''))
   \<and> (inventory db \<noteq> [] \<longrightarrow>
        (\<exists>r. get_latest_inventory u db = Inr r \<and> r \<in> set (inventory db)
           \<and> (\<forall>r'\<in>set (inventory db). check_date r' \<le> check_date r)))
   \<and> (r \<in> set (inventory db)
        \<and> (\<forall>r'\<in>set (inventory db). r' \<noteq> r \<longrightarrow> check_date r' < check_date r) \<longrightarrow>
        get_latest_inventory u db = Inr r)
   \<and> (set (inventory db') = set (inventory db) \<longrightarrow>
        map_sum id check_date (get_latest_inventory u db')
          = map_sum id check_date (get_latest_inventory u db))"
proof (intro conjI impI)
  assume staff: "role u \<in> {ADMIN, MANAGER, OWNER}"
  show "fails_with 404 (get_latest_inventory u db) = (inventory db = [])"
  proof (cases "inventory db = []")
    case True
    with staff show ?thesis by (simp add: get_latest_inventory_none fails_with_Inl)
  next
    case False
    from get_latest_inventory_some [OF staff False]
    obtain r where "get_latest_inventory u db = Inr r" by blast
    with False show ?thesis by (simp add: fails_with_Inr)
  qed
next
  assume "role u \<in> {ADMIN, MANAGER, OWNER}" and "inventory db = []"
  then show "get_latest_inventory u db = Inl (HTTPException 404 ''No inventory records found'')"
    by (rule get_latest_inventory_none)
next
  assume "role u \<in> {ADMIN, MANAGER, OWNER}" and "inventory db \<noteq> []"
  then show "\<exists>r. get_latest_inventory u db = Inr r \<and> r \<in> set (inventory db)
           \<and> (\<forall>r'\<in>set (inventory db). check_date r' \<le> check_date r)"
    by (rule get_latest_inventory_some)
next
  assume staff: "role u \<in> {ADMIN, MANAGER, OWNER}"
    and "r \<in> set (inventory db)
        \<and> (\<forall>r'\<in>set (inventory db). r' \<noteq> r \<longrightarrow> check_date r' < check_date r)"
  then have "r \<in> set (inventory db)"
    and "\<forall>r'\<in>set (inventory db). r' \<noteq> r \<longrightarrow> check_date r' < check_date r"
    by blast+
  with staff show "get_latest_inventory u db = Inr r"
    by (rule get_latest_inventory_unique)
next
  assume "role u \<in> {ADMIN, MANAGER, OWNER}" and "set (inventory db') = set (inventory db)"
  then show "map_sum id check_date (get_latest_inventory u db')
          = map_sum id check_date (get_latest_inventory u db)"
    by (rule get_latest_inventory_order)
qed


theorem get_latest_inventory_spec_witness:
  "get_latest_inventory demo_owner demo_store
     = Inl (HTTPException 404 ''No inventory records found'')
   \<and> get_latest_inventory demo_owner demo_inventory = Inr (demo_check 2 20240301)
   \<and> get_latest_inventory demo_owner
        (demo_inventory\<lparr>inventory :=
           [demo_check 2 20240301, demo_check 3 20240210, demo_check 1 20240105]\<rparr>)
     = Inr (demo_check 2 20240301)"
proof -
  have owner: "role demo_owner \<in> {ADMIN, MANAGER, OWNER}"
    by (simp add: demo_owner_def)
  have none: "inventory demo_store = []"
    by (simp add: demo_store_def)
  have top: "demo_check 2 20240301 \<in> set (inventory demo_inventory)
        \<and> (\<forall>r'\<in>set (inventory demo_inventory). r' \<noteq> demo_check 2 20240301 \<longrightarrow>
              check_date r' < check_date (demo_check 2 20240301))"
    by (simp add: demo_inventory_def demo_check_def)
  have top': "demo_check 2 20240301 \<in> set (inventory (demo_inventory\<lparr>inventory :=
           [demo_check 2 20240301, demo_check 3 20240210, demo_check 1 20240105]\<rparr>))
        \<and> (\<forall>r'\<in>set (inventory (demo_inventory\<lparr>inventory :=
           [demo_check 2 20240301, demo_check 3 20240210, demo_check 1 20240105]\<rparr>)).
              r' \<noteq> demo_check 2 20240301 \<longrightarrow>
              check_date r' < check_date (demo_check 2 20240301))"
    by (simp add: demo_check_def)
  note a = get_latest_inventory_spec [OF owner, where db = demo_store,
      THEN conjunct2, THEN conjunct1, THEN mp, OF none]
  note b = get_latest_inventory_spec [OF owner, where db = demo_inventory
      and r = "demo_check 2 20240301",
      THEN conjunct2, THEN conjunct2, THEN conjunct2, THEN conjunct1, THEN mp, OF top]
  note c = get_latest_inventory_spec [OF owner, where r = "demo_check 2 20240301"
      and db = "demo_inventory\<lparr>inventory :=
           [demo_check 2 20240301, demo_check 3 20240210, demo_check 1 20240105]\<rparr>",
      THEN conjunct2, THEN conjunct2, THEN conjunct2, THEN conjunct1, THEN mp, OF top']
  from a b c show ?thesis by (intro conjI)
qed

subsection \<open>init_time_slots\<close>

lemma truncate_new_TimeSlot: "TimeSlotBase.truncate (new_TimeSlot p k) = p"
  by (simp add: TimeSlotBase.truncate_def new_TimeSlot_def)

lemma shift_name_new_TimeSlot: "shift_name (new_TimeSlot p k) = shift_name p"
  by (simp add: new_TimeSlot_def)

lemma flush_append: "flush table (ps @ qs) = flush (flush table ps) qs"
  by (induction ps arbitrary: table) simp_all

lemma flush_prefix:
  "\<exists>new. flush table ps = table @ new \<and> map TimeSlotBase.truncate new = ps"
proof (induction ps arbitrary: table)
  case Nil
  show ?case by simp
next
  case (Cons p ps)
  let ?x = "new_TimeSlot p (next_id (map slot_id table))"
  from Cons [of "table @ [?x]"] obtain new where
    new: "flush (table @ [?x]) ps = (table @ [?x]) @ new" "map TimeSlotBase.truncate new = ps"
    by (elim exE conjE)
  have "flush table (p # ps) = flush (table @ [?x]) ps"
    by (rule flush.simps(2))
  also have "\<dots> = (table @ [?x]) @ new"
    by (rule new(1))
  also have "\<dots> = table @ (?x # new)"
    by simp
  finally have "flush table (p # ps) = table @ (?x # new)" .
  moreover have "map TimeSlotBase.truncate (?x # new) = p # ps"
    using new(2) by (simp add: truncate_new_TimeSlot)
  ultimately have "flush table (p # ps) = table @ (?x # new)
      \<and> map TimeSlotBase.truncate (?x # new) = p # ps"
    by (rule conjI)
  then show ?case by (rule exI)
qed

lemma flush_names:
  "map shift_name (flush table ps) = map shift_name table @ map shift_name ps"
  by (induction ps arbitrary: table) (simp_all add: shift_name_new_TimeSlot)


text \<open>One turn of the loop: what the query sees, and what is pending after it.\<close>

lemma init_loop_Cons:
  fixes autoflush :: bool and table :: "TimeSlot list" and pending :: "TimeSlotBase list"
  defines "vis \<equiv> if autoflush then flush table pending else table"
    and "pen \<equiv> if autoflush then [] else pending"
  shows "first (filter (\<lambda>t. shift_name t = shift_name slot) vis) = None \<Longrightarrow>
           init_loop autoflush (slot # rest) table pending
             = init_loop autoflush rest vis (pen @ [slot])"
    and "first (filter (\<lambda>t. shift_name t = shift_name slot) vis) = Some d \<Longrightarrow>
           init_loop autoflush (slot # rest) table pending = init_loop autoflush rest vis pen"
    and "flush vis pen = flush table pending"
    and "set table \<subseteq> set vis"
proof -
  show "first (filter (\<lambda>t. shift_name t = shift_name slot) vis) = None \<Longrightarrow>
           init_loop autoflush (slot # rest) table pending
             = init_loop autoflush rest vis (pen @ [slot])"
    unfolding vis_def pen_def by (simp add: Let_def)
  show "first (filter (\<lambda>t. shift_name t = shift_name slot) vis) = Some d \<Longrightarrow>
           init_loop autoflush (slot # rest) table pending = init_loop autoflush rest vis pen"
    unfolding vis_def pen_def by (simp add: Let_def)
  show "flush vis pen = flush table pending"
    unfolding vis_def pen_def by simp
  show "set table \<subseteq> set vis"
  proof (cases autoflush)
    case True
    from flush_prefix [of table pending] obtain new where "flush table pending = table @ new"
      by (elim exE conjE)
    with True show ?thesis unfolding vis_def by simp
  next
    case False
    then show ?thesis unfolding vis_def by simp
  qed
qed


text \<open>The table after the loop and the final flush.\<close>

lemma init_loop_extends:
  "\<exists>new. (case init_loop autoflush seeds table pending of (t, p) \<Rightarrow> flush t p)
            = flush table pending @ new
        \<and> set (map TimeSlotBase.truncate new) \<subseteq> set seeds
        \<and> shift_name ` set new \<inter> shift_name ` set table = {}"
proof (induction seeds arbitrary: table pending)
  case Nil
  have "(case init_loop autoflush [] table pending of (t, p) \<Rightarrow> flush t p)
            = flush table pending @ []
        \<and> set (map TimeSlotBase.truncate []) \<subseteq> set ([] :: TimeSlotBase list)
        \<and> shift_name ` set ([] :: TimeSlot list) \<inter> shift_name ` set table = {}"
    by simp
  then show ?case by (rule exI)
next
  case (Cons slot rest)
  define vis where "vis = (if autoflush then flush table pending else table)"
  define pen where "pen = (if autoflush then [] else pending)"
  note step =
    init_loop_Cons(1) [where slot = slot and autoflush = autoflush and table = table
      and pending = pending and rest = rest, folded vis_def pen_def]
    init_loop_Cons(2) [where slot = slot and autoflush = autoflush and table = table
      and pending = pending and rest = rest, folded vis_def pen_def]
    init_loop_Cons(3) [where autoflush = autoflush and table = table and pending = pending,
      folded vis_def pen_def]
    init_loop_Cons(4) [where autoflush = autoflush and table = table and pending = pending,
      folded vis_def]
  show ?case
  proof (cases "first (filter (\<lambda>t. shift_name t = shift_name slot) vis)")
    case None
    let ?x = "new_TimeSlot slot (next_id (map slot_id (flush table pending)))"
    from Cons.IH [of vis "pen @ [slot]"] obtain new where
      eq: "(case init_loop autoflush rest vis (pen @ [slot]) of (t, p) \<Rightarrow> flush t p)
            = flush vis (pen @ [slot]) @ new"
      and sub: "set (map TimeSlotBase.truncate new) \<subseteq> set rest"
      and dis: "shift_name ` set new \<inter> shift_name ` set vis = {}"
      by (elim exE conjE)
    have "flush vis (pen @ [slot]) = flush (flush vis pen) [slot]"
      by (rule flush_append)
    also have "\<dots> = flush (flush table pending) [slot]"
      by (simp only: step(3))
    also have "\<dots> = flush table pending @ [?x]"
      by simp
    finally have fl: "flush vis (pen @ [slot]) = flush table pending @ [?x]" .
    have fresh: "shift_name slot \<notin> shift_name ` set vis"
      using None by (auto simp: first_filter_None)
    have "(case init_loop autoflush (slot # rest) table pending of (t, p) \<Rightarrow> flush t p)
        = (case init_loop autoflush rest vis (pen @ [slot]) of (t, p) \<Rightarrow> flush t p)"
      by (simp only: step(1) [OF None])
    also have "\<dots> = flush vis (pen @ [slot]) @ new"
      by (rule eq)
    also have "\<dots> = (flush table pending @ [?x]) @ new"
      by (simp only: fl)
    also have "\<dots> = flush table pending @ (?x # new)"
      by simp
    finally have a: "(case init_loop autoflush (slot # rest) table pending of
          (t, p) \<Rightarrow> flush t p) = flush table pending @ (?x # new)" .
    have b: "set (map TimeSlotBase.truncate (?x # new)) \<subseteq> set (slot # rest)"
      using sub by (auto simp: truncate_new_TimeSlot)
    have c: "shift_name ` set (?x # new) \<inter> shift_name ` set table = {}"
      using dis fresh step(4) by (auto simp: shift_name_new_TimeSlot)
    from a b c have "(case init_loop autoflush (slot # rest) table pending of (t, p) \<Rightarrow> flush t p)
            = flush table pending @ (?x # new)
        \<and> set (map TimeSlotBase.truncate (?x # new)) \<subseteq> set (slot # rest)
        \<and> shift_name ` set (?x # new) \<inter> shift_name ` set table = {}"
      by (intro conjI)
    then show ?thesis by (rule exI)
  next
    case (Some d)
    from Cons.IH [of vis pen] obtain new where
      eq: "(case init_loop autoflush rest vis pen of (t, p) \<Rightarrow> flush t p) = flush vis pen @ new"
      and sub: "set (map TimeSlotBase.truncate new) \<subseteq> set rest"
      and dis: "shift_name ` set new \<inter> shift_name ` set vis = {}"
      by (elim exE conjE)
    have "(case init_loop autoflush (slot # rest) table pending of (t, p) \<Rightarrow> flush t p)
        = (case init_loop autoflush rest vis pen of (t, p) \<Rightarrow> flush t p)"
      by (simp only: step(2) [OF Some])
    also have "\<dots> = flush vis pen @ new"
      by (rule eq)
    also have "\<dots> = flush table pending @ new"
      by (simp only: step(3))
    finally have a: "(case init_loop autoflush (slot # rest) table pending of
          (t, p) \<Rightarrow> flush t p) = flush table pending @ new" .
    have b: "set (map TimeSlotBase.truncate new) \<subseteq> set (slot # rest)"
      using sub by auto
    have c: "shift_name ` set new \<inter> shift_name ` set table = {}"
      using dis step(4) by auto
    from a b c have "(case init_loop autoflush (slot # rest) table pending of (t, p) \<Rightarrow> flush t p)
            = flush table pending @ new
        \<and> set (map TimeSlotBase.truncate new) \<subseteq> set (slot # rest)
        \<and> shift_name ` set new \<inter> shift_name ` set table = {}"
      by (intro conjI)
    then show ?thesis by (rule exI)
  qed
qed


lemma flush_keeps: "set table \<subseteq> set (flush table ps)"
proof -
  from flush_prefix [of table ps] obtain new where "flush table ps = table @ new"
    by (elim exE conjE)
  then show ?thesis by simp
qed

lemma init_loop_covers:
  "shift_name ` set seeds \<union> shift_name ` set (flush table pending)
     \<subseteq> shift_name ` set (case init_loop autoflush seeds table pending of (t, p) \<Rightarrow> flush t p)"
proof (induction seeds arbitrary: table pending)
  case Nil
  show ?case by simp
next
  case (Cons slot rest)
  define vis where "vis = (if autoflush then flush table pending else table)"
  define pen where "pen = (if autoflush then [] else pending)"
  note step =
    init_loop_Cons(1) [where slot = slot and autoflush = autoflush and table = table
      and pending = pending and rest = rest, folded vis_def pen_def]
    init_loop_Cons(2) [where slot = slot and autoflush = autoflush and table = table
      and pending = pending and rest = rest, folded vis_def pen_def]
    init_loop_Cons(3) [where autoflush = autoflush and table = table and pending = pending,
      folded vis_def pen_def]
  show ?case
  proof (cases "first (filter (\<lambda>t. shift_name t = shift_name slot) vis)")
    case None
    have "flush vis (pen @ [slot]) = flush (flush vis pen) [slot]"
      by (rule flush_append)
    also have "\<dots> = flush (flush table pending) [slot]"
      by (simp only: step(3))
    finally have "map shift_name (flush vis (pen @ [slot]))
        = map shift_name (flush table pending) @ [shift_name slot]"
      by (simp only: flush_names) simp
    then have "set (map shift_name (flush vis (pen @ [slot])))
        = set (map shift_name (flush table pending) @ [shift_name slot])"
      by (rule arg_cong)
    then have names: "shift_name ` set (flush vis (pen @ [slot]))
        = insert (shift_name slot) (shift_name ` set (flush table pending))"
      by simp
    from Cons.IH [of vis "pen @ [slot]"] show ?thesis
      unfolding step(1) [OF None] names by auto
  next
    case (Some d)
    from first_filter_Some [OF Some] have d: "d \<in> set vis" "shift_name d = shift_name slot"
      by simp_all
    from d(1) flush_keeps [of vis pen] have "d \<in> set (flush table pending)"
      unfolding step(3) by (rule subsetD [rotated])
    then have "shift_name d \<in> shift_name ` set (flush table pending)"
      by (rule imageI)
    then have "shift_name slot \<in> shift_name ` set (flush table pending)"
      unfolding d(2) .
    with Cons.IH [of vis pen] show ?thesis
      unfolding step(2) [OF Some] step(3) by auto
  qed
qed

lemma init_loop_seeded:
  "shift_name ` set seeds \<subseteq> shift_name ` set table \<Longrightarrow>
     init_loop autoflush seeds table [] = (table, [])"
proof (induction seeds)
  case Nil
  show ?case by simp
next
  case (Cons slot rest)
  from Cons.prems have "shift_name slot \<in> shift_name ` set table"
    by simp
  then have "first (filter (\<lambda>t. shift_name t = shift_name slot) table) \<noteq> None"
    by (auto simp: first_filter_None)
  then obtain d where d: "first (filter (\<lambda>t. shift_name t = shift_name slot) table) = Some d"
    by (cases "first (filter (\<lambda>t. shift_name t = shift_name slot) table)") simp_all
  have "init_loop autoflush (slot # rest) table [] = init_loop autoflush rest table []"
    using d by (simp add: Let_def)
  also have "\<dots> = (table, [])"
    using Cons.prems by (intro Cons.IH) simp
  finally show ?case .
qed


lemma init_time_slots_eq:
  "init_time_slots autoflush db
     = db\<lparr>time_slots := (case init_loop autoflush slots (time_slots db) [] of
                              (t, p) \<Rightarrow> flush t p)\<rparr>"
  by (simp add: init_time_slots_def split: prod.split)

lemma init_time_slots_idem:
  "init_time_slots autoflush (init_time_slots autoflush db) = init_time_slots autoflush db"
proof -
  define seeded where
    "seeded = (case init_loop autoflush slots (time_slots db) [] of (t, p) \<Rightarrow> flush t p)"
  have once: "init_time_slots autoflush db = db\<lparr>time_slots := seeded\<rparr>"
    unfolding seeded_def by (rule init_time_slots_eq)
  have "shift_name ` set slots \<subseteq> shift_name ` set seeded"
    unfolding seeded_def using init_loop_covers [of slots "time_slots db" "[]" autoflush]
    by (rule order_trans [rotated]) simp
  then have "init_loop autoflush slots seeded [] = (seeded, [])"
    by (rule init_loop_seeded)
  then have "init_time_slots autoflush (db\<lparr>time_slots := seeded\<rparr>) = db\<lparr>time_slots := seeded\<rparr>"
    by (simp add: init_time_slots_def)
  then show ?thesis unfolding once .
qed

lemma init_time_slots_empty:
  "length (time_slots (init_time_slots autoflush empty_store)) = 10"
proof (cases autoflush)
  case True
  show ?thesis unfolding True
    by (simp add: init_time_slots_def slots_def empty_store_def new_TimeSlot_def next_id_def
          Let_def)
next
  case False
  then have f: "autoflush = False" by simp
  show ?thesis unfolding f
    by (simp add: init_time_slots_def slots_def empty_store_def new_TimeSlot_def next_id_def
          Let_def)
qed


lemma init_time_slots_new_rows:
  "\<exists>new. init_time_slots autoflush db = db\<lparr>time_slots := time_slots db @ new\<rparr>
        \<and> (\<forall>t\<in>set new. TimeSlotBase.truncate t \<in> set slots
              \<and> shift_name t \<notin> shift_name ` set (time_slots db))"
proof -
  from init_loop_extends [of autoflush slots "time_slots db" "[]"] obtain new where
    eq: "(case init_loop autoflush slots (time_slots db) [] of (t, p) \<Rightarrow> flush t p)
            = flush (time_slots db) [] @ new"
    and sub: "set (map TimeSlotBase.truncate new) \<subseteq> set slots"
    and dis: "shift_name ` set new \<inter> shift_name ` set (time_slots db) = {}"
    by (elim exE conjE)
  have a: "init_time_slots autoflush db = db\<lparr>time_slots := time_slots db @ new\<rparr>"
    unfolding init_time_slots_eq eq by simp
  have b: "\<forall>t\<in>set new. TimeSlotBase.truncate t \<in> set slots
              \<and> shift_name t \<notin> shift_name ` set (time_slots db)"
    using sub dis by auto
  from a b have "init_time_slots autoflush db = db\<lparr>time_slots := time_slots db @ new\<rparr>
        \<and> (\<forall>t\<in>set new. TimeSlotBase.truncate t \<in> set slots
              \<and> shift_name t \<notin> shift_name ` set (time_slots db))"
    by (rule conjI)
  then show ?thesis by (rule exI)
qed

text \<open>
  C4. \<open>init_time_slots\<close> run a second time changes nothing, from every store; run twice
  from the empty store it leaves 10 time slots. One run keeps every stored row as it is and
  appends rows only: each appended row carries one of the ten seed tuples, under a
  \<open>shift_name\<close> that no stored row had, and afterwards every seed name is in the table.
  This holds with autoflush on and off.
\<close>

theorem init_time_slots_spec:
  "init_time_slots autoflush (init_time_slots autoflush db) = init_time_slots autoflush db
   \<and> length (time_slots (init_time_slots autoflush (init_time_slots autoflush empty_store))) = 10
   \<and> length slots = 10
   \<and> (\<exists>new. init_time_slots autoflush db = db\<lparr>time_slots := time_slots db @ new\<rparr>
        \<and> (\<forall>t\<in>set new. TimeSlotBase.truncate t \<in> set slots
              \<and> shift_name t \<notin> shift_name ` set (time_slots db)))
   \<and> shift_name ` set slots \<subseteq> shift_name ` set (time_slots (init_time_slots autoflush db))"
proof (intro conjI)
  show "init_time_slots autoflush (init_time_slots autoflush db) = init_time_slots autoflush db"
    by (rule init_time_slots_idem)
  show "length (time_slots (init_time_slots autoflush (init_time_slots autoflush empty_store)))
      = 10"
    by (simp only: init_time_slots_idem init_time_slots_empty)
  show "length slots = 10"
    by (simp add: slots_def)
  show "\<exists>new. init_time_slots autoflush db = db\<lparr>time_slots := time_slots db @ new\<rparr>
        \<and> (\<forall>t\<in>set new. TimeSlotBase.truncate t \<in> set slots
              \<and> shift_name t \<notin> shift_name ` set (time_slots db))"
    by (rule init_time_slots_new_rows)
  have "shift_name ` set slots
      \<subseteq> shift_name ` set (case init_loop autoflush slots (time_slots db) [] of
                                (t, p) \<Rightarrow> flush t p)"
    using init_loop_covers [of slots "time_slots db" "[]" autoflush]
    by (rule order_trans [rotated]) simp
  then show "shift_name ` set slots
      \<subseteq> shift_name ` set (time_slots (init_time_slots autoflush db))"
    unfolding init_time_slots_eq by simp
qed

theorem init_time_slots_spec_witness:
  "init_time_slots False (init_time_slots False demo_old) = init_time_slots False demo_old
   \<and> length (time_slots (init_time_slots True (init_time_slots True empty_store))) = 10
   \<and> take 1 (time_slots (init_time_slots True demo_old)) = time_slots demo_old
   \<and> length (time_slots (init_time_slots True demo_old)) = 10"
proof -
  note a = init_time_slots_spec [where autoflush = False and db = demo_old, THEN conjunct1]
  note b = init_time_slots_spec [where autoflush = True, THEN conjunct2, THEN conjunct1]
  from init_time_slots_spec [where autoflush = True and db = demo_old,
      THEN conjunct2, THEN conjunct2, THEN conjunct2, THEN conjunct1]
  obtain new where
    "init_time_slots True demo_old = demo_old\<lparr>time_slots := time_slots demo_old @ new\<rparr>"
    by (elim exE conjE)
  then have "time_slots (init_time_slots True demo_old) = time_slots demo_old @ new"
    by simp
  moreover have "length (time_slots demo_old) = 1"
    by (simp add: demo_old_def)
  ultimately have c: "take 1 (time_slots (init_time_slots True demo_old)) = time_slots demo_old"
    by simp
  have d: "length (time_slots (init_time_slots True demo_old)) = 10"
    by (simp add: init_time_slots_def slots_def empty_store_def demo_old_def new_TimeSlot_def
          next_id_def Let_def)
  from a b c d show ?thesis by (intro conjI)
qed

subsection \<open>The double-booking invariant\<close>

lemma step_seed_slot:
  "first (filter (\<lambda>t. slot_id t = 1) (time_slots step_seed)) = Some demo_slot"
  by (simp add: step_seed_def init_time_slots_def slots_def demo_users_def empty_store_def
        new_TimeSlot_def next_id_def demo_slot_def Let_def)

lemma step_seed_tables:
  "bookings step_seed = [] \<and> users step_seed = users demo_users"
  by (simp add: step_seed_def init_time_slots_eq demo_users_def empty_store_def)


lemma step_first_eq:
  "create_booking 1 1 demo_req step_seed
     = (Inr \<lparr>row = new_Booking demo_req 1 1 1, time_slot = Some demo_slot\<rparr>,
        step_seed\<lparr>bookings := [new_Booking demo_req 1 1 1]\<rparr>)"
proof -
  have slot: "first (filter (\<lambda>t. slot_id t = time_slot_id demo_req) (time_slots step_seed))
      = Some demo_slot"
    using step_seed_slot by (simp add: demo_req_def)
  have none: "bookings step_seed = []"
    using step_seed_tables by (rule conjunct1)
  show ?thesis
    by (simp add: create_booking_def slot none relationship_time_slot_def next_id_def Let_def
          new_Booking_def)
qed

lemma step_cancel_eq:
  "update_booking_status 2 1 CANCELLED demo_admin step_first
     = (Inr [(''message'', ''Booking status updated successfully'')],
        step_seed\<lparr>bookings := [(new_Booking demo_req 1 1 1)
                                    \<lparr>status := CANCELLED, updated_at := 2\<rparr>]\<rparr>)"
  by (simp add: step_first_def step_first_eq update_booking_status_def demo_admin_def
        new_Booking_def)

lemma step_second_eq:
  "create_booking 3 3 demo_req step_cancel
     = (Inr \<lparr>row = new_Booking demo_req 2 3 3, time_slot = Some demo_slot\<rparr>,
        step_seed\<lparr>bookings := [(new_Booking demo_req 1 1 1)
                                    \<lparr>status := CANCELLED, updated_at := 2\<rparr>,
                                  new_Booking demo_req 2 3 3]\<rparr>)"
proof -
  have slot: "first (filter (\<lambda>t. slot_id t = time_slot_id demo_req) (time_slots step_seed))
      = Some demo_slot"
    using step_seed_slot by (simp add: demo_req_def)
  show ?thesis
    by (simp add: step_cancel_def step_cancel_eq create_booking_def slot
          relationship_time_slot_def next_id_def Let_def new_Booking_def active_status_def)
qed

lemma step_rebook_eq:
  "update_booking_status 4 1 BOOKED demo_admin step_second
     = (Inr [(''message'', ''Booking status updated successfully'')],
        step_seed\<lparr>bookings := [(new_Booking demo_req 1 1 1)\<lparr>status := BOOKED, updated_at := 4\<rparr>,
                                  new_Booking demo_req 2 3 3]\<rparr>)"
  by (simp add: step_second_def step_second_eq update_booking_status_def demo_admin_def
        new_Booking_def)


text \<open>
  \<open>create_booking\<close> keeps the invariant, and so does every handler that leaves the
  bookings alone; \<open>update_booking_status\<close> keeps it when the new status is not an
  active one.
\<close>

lemma no_double_booking_create:
  assumes inv: "no_double_booking db"
  shows "no_double_booking (snd (create_booking tc tu booking db))"
proof (cases "\<exists>t\<in>set (time_slots db). slot_id t = time_slot_id booking")
  case False
  then have "create_booking tc tu booking db
      = (Inl (HTTPException 404 ''Time slot not found''), db)"
    by (intro create_booking_not_found) simp
  with inv show ?thesis by simp
next
  case slot: True
  show ?thesis
  proof (cases "\<exists>b\<in>set (bookings db). booking_date b = booking_date booking
                 \<and> time_slot_id b = time_slot_id booking \<and> active_status (status b)")
    case True
    with slot have "create_booking tc tu booking db =
      (Inl (HTTPException 400 ''This time slot is already booked for the selected date''), db)"
      by (rule create_booking_conflict)
    with inv show ?thesis by simp
  next
    case free: False
    let ?new = "new_Booking booking (next_id (map booking_id (bookings db))) tc tu"
    from create_booking_insert [OF slot free, of tc tu]
    have eq: "snd (create_booking tc tu booking db) = db\<lparr>bookings := bookings db @ [?new]\<rparr>"
      by auto
    have key: "slot_key ?new = (booking_date booking, time_slot_id booking)"
      by (simp add: slot_key_def new_Booking_def)
    have "slot_key ?new \<notin> slot_key ` set (filter (\<lambda>b. active_status (status b)) (bookings db))"
    proof
      assume "slot_key ?new \<in> slot_key ` set (filter (\<lambda>b. active_status (status b)) (bookings db))"
      then obtain b where b: "b \<in> set (bookings db)" "active_status (status b)"
        "slot_key b = slot_key ?new"
        by auto
      from b(3) have "booking_date b = booking_date booking"
        and "time_slot_id b = time_slot_id booking"
        unfolding key by (simp_all add: slot_key_def)
      with b(1,2) free show False by blast
    qed
    with inv show ?thesis
      unfolding eq no_double_booking_def by (simp add: new_Booking_def active_status_def)
  qed
qed


lemma no_double_booking_bookings:
  "bookings db' = bookings db \<Longrightarrow> no_double_booking db' = no_double_booking db"
  by (simp add: no_double_booking_def)

lemma no_double_booking_init:
  "no_double_booking (init_time_slots autoflush db) = no_double_booking db"
  by (rule no_double_booking_bookings) (simp add: init_time_slots_eq)

lemma no_double_booking_login:
  "no_double_booking (snd (login core now un pw db)) = no_double_booking db"
  by (rule no_double_booking_bookings)
     (simp add: login_def Let_def split: option.split)

lemma no_double_booking_inventory:
  "no_double_booking (snd (create_inventory_check req u db)) = no_double_booking db"
  by (rule no_double_booking_bookings) (simp add: create_inventory_check_def Let_def)

lemma update_booking_status_bookings:
  "bookings (snd (update_booking_status now bid st u db)) = bookings db
   \<or> bookings (snd (update_booking_status now bid st u db))
       = map (\<lambda>b. if booking_id b = bid then b\<lparr>status := st, updated_at := now\<rparr> else b)
           (bookings db)"
proof (cases "first (filter (\<lambda>b. booking_id b = bid) (bookings db))")
  case None
  then show ?thesis by (simp add: update_booking_status_def)
next
  case (Some b)
  from first_filter_Some [OF Some] have "booking_id b = bid" by simp
  with Some show ?thesis by (simp add: update_booking_status_def)
qed

lemma active_keys_update_inactive:
  assumes "\<not> active_status st"
  shows "map slot_key (filter (\<lambda>b. active_status (status b))
           (map (\<lambda>b. if booking_id b = bid then b\<lparr>status := st, updated_at := now\<rparr> else b) bs))
    = map slot_key (filter (\<lambda>b. booking_id b \<noteq> bid)
        (filter (\<lambda>b. active_status (status b)) bs))"
  using assms by (induction bs) simp_all

lemma no_double_booking_update_inactive:
  assumes inv: "no_double_booking db" and st: "\<not> active_status st"
  shows "no_double_booking (snd (update_booking_status now bid st u db))"
proof -
  from update_booking_status_bookings [of now bid st u db]
  show ?thesis
  proof
    assume "bookings (snd (update_booking_status now bid st u db)) = bookings db"
    then have "no_double_booking (snd (update_booking_status now bid st u db))
        = no_double_booking db"
      by (rule no_double_booking_bookings)
    with inv show ?thesis by simp
  next
    assume eq: "bookings (snd (update_booking_status now bid st u db))
       = map (\<lambda>b. if booking_id b = bid then b\<lparr>status := st, updated_at := now\<rparr> else b)
           (bookings db)"
    from inv have "distinct (map slot_key (filter (\<lambda>b. booking_id b \<noteq> bid)
        (filter (\<lambda>b. active_status (status b)) (bookings db))))"
      unfolding no_double_booking_def by (rule distinct_map_filter)
    then show ?thesis
      unfolding no_double_booking_def eq active_keys_update_inactive [OF st] .
  qed
qed

text \<open>
  C2. The invariant that no two bookings with status Booked or Deposit Paid share a date and
  a time slot does not hold in every reachable state. From a store that holds users only
  (users are created outside the program), with an admin among them:
  seeding, a booking for slot 1 on 2024-06-01 (it gets id 1), its status set to Cancelled, a
  second booking for the same date and slot (accepted, id 2), and the status of booking 1
  set back to Booked. Every call succeeds; the invariant holds before the last call and
  fails after it, where both bookings are Booked on the same date and slot.
\<close>

theorem double_booking_reachable:
  "fst (create_booking 1 1 demo_req step_seed)
     = Inr \<lparr>row = new_Booking demo_req 1 1 1, time_slot = Some demo_slot\<rparr>
   \<and> fst (update_booking_status 2 1 CANCELLED demo_admin step_first)
     = Inr [(''message'', ''Booking status updated successfully'')]
   \<and> fst (create_booking 3 3 demo_req step_cancel)
     = Inr \<lparr>row = new_Booking demo_req 2 3 3, time_slot = Some demo_slot\<rparr>
   \<and> no_double_booking step_second
   \<and> fst (update_booking_status 4 1 BOOKED demo_admin step_second)
     = Inr [(''message'', ''Booking status updated successfully'')]
   \<and> bookings step_rebook
     = [(new_Booking demo_req 1 1 1)\<lparr>status := BOOKED, updated_at := 4\<rparr>,
        new_Booking demo_req 2 3 3]
   \<and> \<not> no_double_booking step_rebook"
proof (intro conjI)
  show "fst (create_booking 1 1 demo_req step_seed)
     = Inr \<lparr>row = new_Booking demo_req 1 1 1, time_slot = Some demo_slot\<rparr>"
    by (simp add: step_first_eq)
  show "fst (update_booking_status 2 1 CANCELLED demo_admin step_first)
     = Inr [(''message'', ''Booking status updated successfully'')]"
    by (simp add: step_cancel_eq)
  show "fst (create_booking 3 3 demo_req step_cancel)
     = Inr \<lparr>row = new_Booking demo_req 2 3 3, time_slot = Some demo_slot\<rparr>"
    by (simp add: step_second_eq)
  show "no_double_booking step_second"
    by (simp add: step_second_def step_second_eq no_double_booking_def new_Booking_def
          active_status_def)
  show "fst (update_booking_status 4 1 BOOKED demo_admin step_second)
     = Inr [(''message'', ''Booking status updated successfully'')]"
    by (simp add: step_rebook_eq)
  show "bookings step_rebook
     = [(new_Booking demo_req 1 1 1)\<lparr>status := BOOKED, updated_at := 4\<rparr>,
        new_Booking demo_req 2 3 3]"
    by (simp add: step_rebook_def step_rebook_eq)
  show "\<not> no_double_booking step_rebook"
    by (simp add: step_rebook_def step_rebook_eq no_double_booking_def new_Booking_def
          active_status_def slot_key_def)
qed

end
